theory Spec2Isabelle
  imports Main "HOL-Library.AList"
begin

section \<open>Schema declaration (sqlite-builder/src/types.ts)\<close>

text \<open>
  A column's \<open>type\<close> is a string tag at run time; the TypeScript union
  \<open>InferColumnType\<close> is erased, and the \<open>switch\<close> of \<open>runCreateTable\<close> has an
  implicit default branch, so the tag is modelled as the string the code compares.
  \<open>notNull\<close> and \<open>defaultTo\<close> are optional properties. A default is either a literal
  value or a function of the \<open>sql\<close> tag that returns a raw SQL expression.
\<close>

datatype default_value = Literal string | SqlFunction string

record ColumeOption =
  ctype :: string
  defaultTo :: "default_value option"
  notNull :: "bool option"

text \<open>\<open>keyof T | Array<keyof T>\<close>: one column name or an array of column names.\<close>

datatype key_spec = Single string | Multi "string list"

text \<open>\<open>timestamp?: boolean | { create?: keyof T; update?: keyof T }\<close>\<close>

datatype timestamp_option = TsBool bool | TsObject "string option" "string option"

record TableOption =
  primary :: "key_spec option"
  unique :: "key_spec list option"
  index :: "key_spec list option"
  timestamp :: "timestamp_option option"

text \<open>
  \<open>columns\<close> is a JavaScript object; the list holds its entries in the order
  \<open>Object.entries\<close> yields them. A table map is a \<open>Map\<close> in insertion order.
\<close>

record ITable =
  columns :: "(string \<times> ColumeOption) list"
  property :: "TableOption option"

type_synonym table_map = "(string \<times> ITable) list"

section \<open>Statements handed to the query builder\<close>

datatype sql_type = Text | Integer | Real | Blob

datatype TriggerEvent = Insert | Update | Delete

record column_def =
  col_name :: string
  col_type :: sql_type
  col_auto_increment :: bool
  col_primary_key :: bool
  col_not_null :: bool
  col_default :: "default_value option"

datatype table_constraint =
  PrimaryKeyConstraint string "string list"
| UniqueConstraint string "string list"

text \<open>
  The four statements \<open>runCreateTable\<close> issues:
  \<open>drop table if exists\<close>, \<open>create table if not exists\<close>,
  \<open>create index if not exists\<close> and \<open>create trigger if not exists\<close>.
  A trigger statement carries its name, its event, its table, the column it sets to
  \<open>datetime('now','localtime')\<close> and the key column of its \<open>where\<close> clause.
\<close>

datatype statement =
  DropTable string
| CreateTable string "column_def list" "table_constraint list"
| CreateIndex string string "string list"
| CreateTrigger string TriggerEvent string string string

section \<open>JavaScript helpers\<close>

text \<open>Truthiness of a string (\<open>''\<close> is falsy) and of a string or array of strings.\<close>

definition truthy_string :: "string \<Rightarrow> bool" where
  "truthy_string s = (s \<noteq> [])"

fun truthy_key :: "key_spec \<Rightarrow> bool" where
  "truthy_key (Single s) = truthy_string s"
| "truthy_key (Multi xs) = True"

fun truthy_timestamp :: "timestamp_option option \<Rightarrow> bool" where
  "truthy_timestamp None = False"
| "truthy_timestamp (Some (TsBool b)) = b"
| "truthy_timestamp (Some (TsObject c u)) = True"

text \<open>\<open>Array.prototype.join\<close> with a separator.\<close>

fun join :: "string \<Rightarrow> string list \<Rightarrow> string" where
  "join sep [] = []"
| "join sep [x] = x"
| "join sep (x # y # ys) = x @ sep @ join sep (y # ys)"

text \<open>\<open>is ? k.join('_') : k\<close>, \<open>is ? k : [k]\<close> and \<open>is ? k[0] : k\<close>
  (\<open>undefined\<close> for an empty array).\<close>

fun key_name :: "key_spec \<Rightarrow> string" where
  "key_name (Single s) = s"
| "key_name (Multi xs) = join ''_'' xs"

fun key_columns :: "key_spec \<Rightarrow> string list" where
  "key_columns (Single s) = [s]"
| "key_columns (Multi xs) = xs"

fun key_first :: "key_spec \<Rightarrow> string option" where
  "key_first (Single s) = Some s"
| "key_first (Multi []) = None"
| "key_first (Multi (x # xs)) = Some x"

section \<open>Building the create-table statement (sqlite-builder/src/util.ts)\<close>

text \<open>The \<open>switch (type)\<close> of lines 70-88; \<open>dataType\<close> starts as \<open>'text'\<close>.\<close>

definition dataTypeOf :: "string \<Rightarrow> sql_type" where
  "dataTypeOf type =
     (if type = ''boolean'' \<or> type = ''date'' \<or> type = ''object'' \<or> type = ''string'' then Text
      else if type = ''increments'' \<or> type = ''number'' then Integer
      else if type = ''blob'' then Blob
      else Text)"

text \<open>
  \<open>(typeof timestamp === 'object' && timestamp.create) || 'createAt'\<close> and its
  sibling for \<open>update\<close>.
\<close>

fun insertColumnName :: "timestamp_option option \<Rightarrow> string" where
  "insertColumnName (Some (TsObject (Some c) u)) = (if truthy_string c then c else ''createAt'')"
| "insertColumnName _ = ''createAt''"

fun updateColumnName :: "timestamp_option option \<Rightarrow> string" where
  "updateColumnName (Some (TsObject c (Some u))) = (if truthy_string u then u else ''updateAt'')"
| "updateColumnName _ = ''updateAt''"

text \<open>The callback given to \<open>addColumn\<close> (lines 94-107).\<close>

definition columnBuilder :: "string \<Rightarrow> sql_type \<Rightarrow> ColumeOption \<Rightarrow> column_def" where
  "columnBuilder columnName dataType opt =
     (if ctype opt = ''increments'' then
        \<lparr>col_name = columnName, col_type = dataType, col_auto_increment = True,
         col_primary_key = True, col_not_null = False, col_default = None\<rparr>
      else
        \<lparr>col_name = columnName, col_type = dataType, col_auto_increment = False,
         col_primary_key = False, col_not_null = (notNull opt = Some True),
         col_default = defaultTo opt\<rparr>)"

text \<open>
  The mutable locals of one loop iteration of \<open>runCreateTable\<close>: \<open>_triggerKey\<close>
  (\<open>None\<close> is \<open>undefined\<close>), \<open>_haveAutoKey\<close>, and the columns and constraints
  added to \<open>tableSql\<close> so far.
\<close>

record build_state =
  triggerKey :: "string option"
  haveAutoKey :: bool
  sql_columns :: "column_def list"
  sql_constraints :: "table_constraint list"

text \<open>One pass of the column loop, lines 69-108.\<close>

definition addColumnStep :: "string \<Rightarrow> string \<Rightarrow> string \<times> ColumeOption \<Rightarrow> build_state \<Rightarrow> build_state" where
  "addColumnStep ins upd entry st =
     (let columnName = fst entry; opt = snd entry;
          dataType = dataTypeOf (ctype opt);
          st1 = (if ctype opt = ''increments'' then st\<lparr>triggerKey := Some columnName\<rparr> else st)
      in if columnName = ins \<or> columnName = upd then st1
         else st1\<lparr>haveAutoKey := (haveAutoKey st1 \<or> ctype opt = ''increments''),
                  sql_columns := sql_columns st1 @ [columnBuilder columnName dataType opt]\<rparr>)"

fun addColumns :: "string \<Rightarrow> string \<Rightarrow> (string \<times> ColumeOption) list \<Rightarrow> build_state \<Rightarrow> build_state" where
  "addColumns ins upd [] st = st"
| "addColumns ins upd (e # es) st = addColumns ins upd es (addColumnStep ins upd e st)"

text \<open>Lines 110-113: the two timestamp columns.\<close>

definition plainColumn :: "string \<Rightarrow> sql_type \<Rightarrow> column_def" where
  "plainColumn n t =
     \<lparr>col_name = n, col_type = t, col_auto_increment = False, col_primary_key = False,
      col_not_null = False, col_default = None\<rparr>"

definition addTimestampColumns :: "timestamp_option option \<Rightarrow> build_state \<Rightarrow> build_state" where
  "addTimestampColumns ts st =
     (if truthy_timestamp ts
      then st\<lparr>sql_columns := sql_columns st @
                 [plainColumn (insertColumnName ts) Text, plainColumn (updateColumnName ts) Text]\<rparr>
      else st)"

text \<open>Lines 115-119: the primary-key constraint.\<close>

definition addPrimary :: "key_spec option \<Rightarrow> build_state \<Rightarrow> build_state" where
  "addPrimary p st =
     (case p of
        None \<Rightarrow> st
      | Some k \<Rightarrow>
          if \<not> haveAutoKey st \<and> truthy_key k
          then st\<lparr>triggerKey := key_first k,
                  sql_constraints := sql_constraints st @
                    [PrimaryKeyConstraint (''pk_'' @ key_name k) (key_columns k)]\<rparr>
          else st)"

text \<open>Lines 121-125: \<open>unique?.forEach\<close>.\<close>

definition truthy_primary :: "key_spec option \<Rightarrow> bool" where
  "truthy_primary p = (case p of None \<Rightarrow> False | Some k \<Rightarrow> truthy_key k)"

definition addUniqueStep :: "key_spec option \<Rightarrow> key_spec \<Rightarrow> build_state \<Rightarrow> build_state" where
  "addUniqueStep p u st =
     st\<lparr>triggerKey := (if \<not> truthy_primary p \<and> \<not> haveAutoKey st then key_first u
                        else triggerKey st),
        sql_constraints := sql_constraints st @
          [UniqueConstraint (''un_'' @ key_name u) (key_columns u)]\<rparr>"

fun addUniques :: "key_spec option \<Rightarrow> key_spec list \<Rightarrow> build_state \<Rightarrow> build_state" where
  "addUniques p [] st = st"
| "addUniques p (u # us) st = addUniques p us (addUniqueStep p u st)"

text \<open>\<open>tableProperty || {}\<close>: an absent property object has no field set.\<close>

definition emptyOption :: TableOption where
  "emptyOption = \<lparr>primary = None, unique = None, index = None, timestamp = None\<rparr>"

definition tableProperty :: "ITable \<Rightarrow> TableOption" where
  "tableProperty t = (case property t of None \<Rightarrow> emptyOption | Some p \<Rightarrow> p)"

definition initialBuild :: build_state where
  "initialBuild = \<lparr>triggerKey = Some ''rowid'', haveAutoKey = False,
                   sql_columns = [], sql_constraints = []\<rparr>"

text \<open>Lines 60-125: everything between \<open>createTable(tableName)\<close> and
  \<open>tableSql.ifNotExists().execute()\<close>.\<close>

definition buildTable :: "ITable \<Rightarrow> build_state" where
  "buildTable t =
     (let p = tableProperty t;
          ins = insertColumnName (timestamp p);
          upd = updateColumnName (timestamp p);
          st1 = addColumns ins upd (columns t) initialBuild;
          st2 = addTimestampColumns (timestamp p) st1;
          st3 = addPrimary (primary p) st2
      in addUniques (primary p) (case unique p of None \<Rightarrow> [] | Some us \<Rightarrow> us) st3)"

definition createTableStatement :: "string \<Rightarrow> ITable \<Rightarrow> statement" where
  "createTableStatement tableName t =
     CreateTable tableName (sql_columns (buildTable t)) (sql_constraints (buildTable t))"

section \<open>Running statements (sqlite-builder/src/util.ts)\<close>

text \<open>
  \<open>kysely\<close> is the connection the statements are executed on. It is a parameter of
  the model: an executor takes a statement and the database state and either rejects
  with an error, leaving the database as it was, or resolves with the new state.
  The \<open>world\<close> is what the routine can change: the database, and the lines written
  by \<open>console.error\<close>.
\<close>

type_synonym 'db executor = "statement \<Rightarrow> 'db \<Rightarrow> string + 'db"

record 'db world =
  database :: 'db
  console :: "string list"

text \<open>\<open>.execute(kysely)\<close> as a promise: rejected with an error or resolved in a
  new world.\<close>

definition execute :: "'db executor \<Rightarrow> statement \<Rightarrow> 'db world \<Rightarrow> string + 'db world" where
  "execute kysely s w =
     (case kysely s (database w) of
        Inl err \<Rightarrow> Inl err
      | Inr d \<Rightarrow> Inr (w\<lparr>database := d\<rparr>))"

text \<open>\<open>.catch((err) => { console.error(err); return undefined })\<close>\<close>

definition catch_console :: "'db world \<Rightarrow> string + 'db world \<Rightarrow> string + 'db world" where
  "catch_console w p =
     (case p of
        Inl err \<Rightarrow> Inr (w\<lparr>console := console w @ [err]\<rparr>)
      | Inr w' \<Rightarrow> Inr w')"

text \<open>The default parameter \<open>key = 'rowid'\<close> applies when \<open>undefined\<close> is passed.\<close>

definition keyOrDefault :: "string option \<Rightarrow> string" where
  "keyOrDefault key = (case key of None \<Rightarrow> ''rowid'' | Some k \<Rightarrow> k)"

definition timeTriggerStatement :: "string \<Rightarrow> TriggerEvent \<Rightarrow> string \<Rightarrow> string option \<Rightarrow> statement" where
  "timeTriggerStatement table event column key =
     CreateTrigger (table @ ''_'' @ column) event table column (keyOrDefault key)"

definition createTimeTrigger ::
  "'db executor \<Rightarrow> string \<Rightarrow> TriggerEvent \<Rightarrow> string \<Rightarrow> string option \<Rightarrow> 'db world \<Rightarrow> string + 'db world" where
  "createTimeTrigger kysely table event column key w =
     catch_console w (execute kysely (timeTriggerStatement table event column key) w)"

text \<open>Lines 129-137: the index loop; a rejected statement ends the routine.\<close>

definition indexStatement :: "string \<Rightarrow> key_spec \<Rightarrow> statement" where
  "indexStatement tableName i = CreateIndex (''idx_'' @ key_name i) tableName (key_columns i)"

fun createIndexes :: "'db executor \<Rightarrow> string \<Rightarrow> key_spec list \<Rightarrow> 'db world \<Rightarrow> string + 'db world" where
  "createIndexes kysely tableName [] w = Inr w"
| "createIndexes kysely tableName (i # is) w =
     (case execute kysely (indexStatement tableName i) w of
        Inl err \<Rightarrow> Inl err
      | Inr w' \<Rightarrow> createIndexes kysely tableName is w')"

text \<open>Lines 139-142.\<close>

definition createTimeTriggers :: "'db executor \<Rightarrow> string \<Rightarrow> ITable \<Rightarrow> 'db world \<Rightarrow> string + 'db world" where
  "createTimeTriggers kysely tableName t w =
     (let ts = timestamp (tableProperty t); key = triggerKey (buildTable t)
      in if truthy_timestamp ts then
           (case createTimeTrigger kysely tableName Insert (insertColumnName ts) key w of
              Inl err \<Rightarrow> Inl err
            | Inr w' \<Rightarrow> createTimeTrigger kysely tableName Update (updateColumnName ts) key w')
         else Inr w)"

text \<open>
  Lines 56-58: \<open>.catch()\<close> without a handler passes a rejection through.
\<close>

definition dropBeforeInit :: "'db executor \<Rightarrow> bool \<Rightarrow> string \<Rightarrow> 'db world \<Rightarrow> string + 'db world" where
  "dropBeforeInit kysely dropTableBeforeInit tableName w =
     (if dropTableBeforeInit then execute kysely (DropTable tableName) w else Inr w)"

text \<open>The body of the \<open>for (const [tableName, table] of tableMap)\<close> loop.\<close>

definition createOneTable :: "'db executor \<Rightarrow> bool \<Rightarrow> string \<times> ITable \<Rightarrow> 'db world \<Rightarrow> string + 'db world" where
  "createOneTable kysely dropTableBeforeInit entry w =
     (let tableName = fst entry; t = snd entry in
      case dropBeforeInit kysely dropTableBeforeInit tableName w of
        Inl err \<Rightarrow> Inl err
      | Inr w1 \<Rightarrow>
          (case execute kysely (createTableStatement tableName t) w1 of
             Inl err \<Rightarrow> Inl err
           | Inr w2 \<Rightarrow>
               (case createIndexes kysely tableName
                       (case index (tableProperty t) of None \<Rightarrow> [] | Some is \<Rightarrow> is) w2 of
                  Inl err \<Rightarrow> Inl err
                | Inr w3 \<Rightarrow> createTimeTriggers kysely tableName t w3)))"

fun runCreateTable :: "'db executor \<Rightarrow> table_map \<Rightarrow> bool \<Rightarrow> 'db world \<Rightarrow> string + 'db world" where
  "runCreateTable kysely [] dropTableBeforeInit w = Inr w"
| "runCreateTable kysely (entry # rest) dropTableBeforeInit w =
     (case createOneTable kysely dropTableBeforeInit entry w of
        Inl err \<Rightarrow> Inl err
      | Inr w' \<Rightarrow> runCreateTable kysely rest dropTableBeforeInit w')"

section \<open>The database catalog\<close>

text \<open>
  What the four statements do to a SQLite database, as far as \<open>runCreateTable\<close> can
  observe it: the catalog of tables, indexes and triggers, each under its name.
  \<open>accepts\<close> stands for the checks that do not depend on the catalog (the SQL text
  compiles and parses); a statement that fails them is rejected whatever the catalog
  holds. \<open>if not exists\<close> and \<open>if exists\<close> turn a statement on a name that is
  there, or not there, into a no-op.
\<close>

record table_entry =
  tbl_columns :: "column_def list"
  tbl_constraints :: "table_constraint list"

record index_entry =
  idx_table :: string
  idx_columns :: "string list"

record trigger_entry =
  trg_event :: TriggerEvent
  trg_table :: string
  trg_column :: string
  trg_key :: string

record catalog =
  tables :: "(string \<times> table_entry) list"
  indexes :: "(string \<times> index_entry) list"
  triggers :: "(string \<times> trigger_entry) list"

definition has_name :: "string \<Rightarrow> (string \<times> 'a) list \<Rightarrow> bool" where
  "has_name n xs = (n \<in> set (map fst xs))"

fun constraint_columns :: "table_constraint \<Rightarrow> string list" where
  "constraint_columns (PrimaryKeyConstraint n cs) = cs"
| "constraint_columns (UniqueConstraint n cs) = cs"

fun is_primary_constraint :: "table_constraint \<Rightarrow> bool" where
  "is_primary_constraint (PrimaryKeyConstraint n cs) = True"
| "is_primary_constraint (UniqueConstraint n cs) = False"

text \<open>A table definition the engine accepts: at least one column, no column name
  twice, constraints over columns of the table, at most one primary key.\<close>

definition table_definition_ok :: "column_def list \<Rightarrow> table_constraint list \<Rightarrow> bool" where
  "table_definition_ok cols cons =
     (cols \<noteq> [] \<and> distinct (map col_name cols) \<and>
      (\<forall>c \<in> set cons. constraint_columns c \<noteq> [] \<and>
                       set (constraint_columns c) \<subseteq> set (map col_name cols)) \<and>
      length (filter col_primary_key cols) + length (filter is_primary_constraint cons) \<le> 1)"

definition table_columns :: "catalog \<Rightarrow> string \<Rightarrow> string list" where
  "table_columns d t =
     (case map_of (tables d) t of None \<Rightarrow> [] | Some e \<Rightarrow> map col_name (tbl_columns e))"

fun sqlite_exec :: "(statement \<Rightarrow> bool) \<Rightarrow> statement \<Rightarrow> catalog \<Rightarrow> string + catalog" where
  "sqlite_exec accepts (DropTable t) d =
     (if \<not> accepts (DropTable t) then Inl ''syntax error''
      else if has_name t (tables d) then
        Inr (d\<lparr>tables := filter (\<lambda>e. fst e \<noteq> t) (tables d),
               indexes := filter (\<lambda>e. idx_table (snd e) \<noteq> t) (indexes d),
               triggers := filter (\<lambda>e. trg_table (snd e) \<noteq> t) (triggers d)\<rparr>)
      else Inr d)"
| "sqlite_exec accepts (CreateTable t cols cons) d =
     (if \<not> accepts (CreateTable t cols cons) then Inl ''syntax error''
      else if has_name t (tables d) then Inr d
      else if has_name t (indexes d) then Inl ''there is already an index with this name''
      else if \<not> table_definition_ok cols cons then Inl ''invalid table definition''
      else Inr (d\<lparr>tables := tables d @ [(t, \<lparr>tbl_columns = cols, tbl_constraints = cons\<rparr>)]\<rparr>))"
| "sqlite_exec accepts (CreateIndex n t cols) d =
     (if \<not> accepts (CreateIndex n t cols) then Inl ''syntax error''
      else if \<not> has_name t (tables d) then Inl ''no such table''
      else if has_name n (indexes d) then Inr d
      else if has_name n (tables d) then Inl ''there is already a table with this name''
      else if cols = [] \<or> \<not> set cols \<subseteq> set (table_columns d t) then Inl ''no such column''
      else Inr (d\<lparr>indexes := indexes d @ [(n, \<lparr>idx_table = t, idx_columns = cols\<rparr>)]\<rparr>))"
| "sqlite_exec accepts (CreateTrigger n ev t col key) d =
     (if \<not> accepts (CreateTrigger n ev t col key) then Inl ''syntax error''
      else if \<not> has_name t (tables d) then Inl ''no such table''
      else if has_name n (triggers d) then Inr d
      else Inr (d\<lparr>triggers := triggers d @
                  [(n, \<lparr>trg_event = ev, trg_table = t, trg_column = col, trg_key = key\<rparr>)]\<rparr>))"

text \<open>
  An executor that also counts the statements that changed the database: the
  operations a run really performed.
\<close>

definition counting :: "'db executor \<Rightarrow> ('db \<times> nat) executor" where
  "counting kysely s dn =
     (case kysely s (fst dn) of
        Inl err \<Rightarrow> Inl err
      | Inr d \<Rightarrow> Inr (d, if d = fst dn then snd dn else Suc (snd dn)))"

section \<open>Example schemas\<close>

text \<open>The table of the playground (\<open>playground/src/modules/utils.ts\<close>), written
  with the option names of \<open>sqlite-builder/src/types.ts\<close>.\<close>

definition testTable :: ITable where
  "testTable =
     \<lparr>columns = [(''id'', \<lparr>ctype = ''increments'', defaultTo = None, notNull = None\<rparr>),
                 (''name'', \<lparr>ctype = ''string'', defaultTo = None, notNull = None\<rparr>),
                 (''blobtest'', \<lparr>ctype = ''blob'', defaultTo = None, notNull = None\<rparr>)],
      property = Some \<lparr>primary = None, unique = None, index = None,
                       timestamp = Some (TsBool True)\<rparr>\<rparr>"

definition userTable :: ITable where
  "userTable =
     \<lparr>columns = [(''email'', \<lparr>ctype = ''string'', defaultTo = None, notNull = Some True\<rparr>)],
      property = Some \<lparr>primary = None, unique = Some [Single ''email''], index = None,
                       timestamp = Some (TsBool True)\<rparr>\<rparr>"

definition emptyCatalog :: catalog where
  "emptyCatalog = \<lparr>tables = [], indexes = [], triggers = []\<rparr>"

text \<open>The catalog after \<open>testTable\<close> has been created as table \<open>test\<close>.\<close>

definition testCatalog :: catalog where
  "testCatalog =
     \<lparr>tables = [(''test'',
         \<lparr>tbl_columns =
            [\<lparr>col_name = ''id'', col_type = Integer, col_auto_increment = True,
              col_primary_key = True, col_not_null = False, col_default = None\<rparr>,
             \<lparr>col_name = ''name'', col_type = Text, col_auto_increment = False,
              col_primary_key = False, col_not_null = False, col_default = None\<rparr>,
             \<lparr>col_name = ''blobtest'', col_type = Blob, col_auto_increment = False,
              col_primary_key = False, col_not_null = False, col_default = None\<rparr>,
             \<lparr>col_name = ''createAt'', col_type = Text, col_auto_increment = False,
              col_primary_key = False, col_not_null = False, col_default = None\<rparr>,
             \<lparr>col_name = ''updateAt'', col_type = Text, col_auto_increment = False,
              col_primary_key = False, col_not_null = False, col_default = None\<rparr>],
          tbl_constraints = []\<rparr>)],
      indexes = [],
      triggers = [(''test_createAt'', \<lparr>trg_event = Insert, trg_table = ''test'',
                                       trg_column = ''createAt'', trg_key = ''id''\<rparr>),
                  (''test_updateAt'', \<lparr>trg_event = Update, trg_table = ''test'',
                                       trg_column = ''updateAt'', trg_key = ''id''\<rparr>)]\<rparr>"

text \<open>An engine that accepts every statement text, and one that rejects the text of
  every trigger statement.\<close>

definition acceptAll :: "statement \<Rightarrow> bool" where
  "acceptAll s = True"

section \<open>The statements of a run, as a list\<close>

text \<open>
  No statement \<open>runCreateTable\<close> builds depends on what the database answered, so a
  run is the execution of a fixed list of statements. The flag marks the statements
  whose rejection is caught and logged (the trigger statements); a rejection of any
  other ends the run. The lists serve the proofs only; they are shown equal to the
  routine below.
\<close>

fun is_trigger :: "statement \<Rightarrow> bool" where
  "is_trigger (CreateTrigger n ev t c k) = True"
| "is_trigger _ = False"

fun is_drop :: "statement \<Rightarrow> bool" where
  "is_drop (DropTable t) = True"
| "is_drop _ = False"

definition rejectTriggers :: "statement \<Rightarrow> bool" where
  "rejectTriggers s = (\<not> is_trigger s)"

definition creationStatements :: "string \<times> ITable \<Rightarrow> (bool \<times> statement) list" where
  "creationStatements entry =
     [(False, createTableStatement (fst entry) (snd entry))] @
     map (\<lambda>i. (False, indexStatement (fst entry) i))
       (case index (tableProperty (snd entry)) of None \<Rightarrow> [] | Some is \<Rightarrow> is)"

definition triggerStatements :: "string \<times> ITable \<Rightarrow> (bool \<times> statement) list" where
  "triggerStatements entry =
     (if truthy_timestamp (timestamp (tableProperty (snd entry)))
      then [(True, timeTriggerStatement (fst entry) Insert
                     (insertColumnName (timestamp (tableProperty (snd entry))))
                     (triggerKey (buildTable (snd entry)))),
            (True, timeTriggerStatement (fst entry) Update
                     (updateColumnName (timestamp (tableProperty (snd entry))))
                     (triggerKey (buildTable (snd entry))))]
      else [])"

definition tableStatements :: "bool \<Rightarrow> string \<times> ITable \<Rightarrow> (bool \<times> statement) list" where
  "tableStatements dropTableBeforeInit entry =
     (if dropTableBeforeInit then [(False, DropTable (fst entry))] else []) @
     creationStatements entry @ triggerStatements entry"

fun runStatements :: "'db executor \<Rightarrow> (bool \<times> statement) list \<Rightarrow> 'db world \<Rightarrow> string + 'db world" where
  "runStatements kysely [] w = Inr w"
| "runStatements kysely (s # ss) w =
     (case (if fst s then catch_console w (execute kysely (snd s) w)
            else execute kysely (snd s) w) of
        Inl err \<Rightarrow> Inl err
      | Inr w' \<Rightarrow> runStatements kysely ss w')"

text \<open>
  A creation statement is stable in a catalog when the names it needs and the name it
  creates are there: it is then a no-op, and stays one while the catalog only grows.
  A statement of a run is settled when it is accepted and stable, or rejected for its
  text and of the kind whose rejection is caught.
\<close>

fun stable :: "statement \<Rightarrow> catalog \<Rightarrow> bool" where
  "stable (DropTable t) d = False"
| "stable (CreateTable t cols cons) d = has_name t (tables d)"
| "stable (CreateIndex n t cols) d = (has_name t (tables d) \<and> has_name n (indexes d))"
| "stable (CreateTrigger n ev t c k) d = (has_name t (tables d) \<and> has_name n (triggers d))"

definition settled :: "(statement \<Rightarrow> bool) \<Rightarrow> bool \<times> statement \<Rightarrow> catalog \<Rightarrow> bool" where
  "settled acc bs d = (if acc (snd bs) then stable (snd bs) d else fst bs)"

definition grows :: "catalog \<Rightarrow> catalog \<Rightarrow> bool" where
  "grows d d' = (set (map fst (tables d)) \<subseteq> set (map fst (tables d')) \<and>
                 set (map fst (indexes d)) \<subseteq> set (map fst (indexes d')) \<and>
                 set (map fst (triggers d)) \<subseteq> set (map fst (triggers d')))"

text \<open>
  Two promises agree up to a relation \<open>R\<close> on what they resolve with: both are
  rejected, with the same error, or both resolve, with values that \<open>R\<close> relates.
  Two catalogs hold the same tables when they differ in their triggers at most.
\<close>

definition agree :: "('a \<Rightarrow> 'b \<Rightarrow> bool) \<Rightarrow> string + 'a \<Rightarrow> string + 'b \<Rightarrow> bool" where
  "agree R p q =
     (case p of
        Inl err \<Rightarrow> q = Inl err
      | Inr x \<Rightarrow> (case q of Inl err \<Rightarrow> False | Inr y \<Rightarrow> R x y))"

definition same_tables :: "catalog \<Rightarrow> catalog \<Rightarrow> bool" where
  "same_tables d d' = (tables d = tables d' \<and> indexes d = indexes d')"

text \<open>The names of the columns tagged \<open>increments\<close>, in declaration order.\<close>

definition incrementsColumns :: "ITable \<Rightarrow> string list" where
  "incrementsColumns t = map fst (filter (\<lambda>e. ctype (snd e) = ''increments'') (columns t))"

section \<open>The worker (dialect-bun-worker/src/worker.ts)\<close>

text \<open>
  Modelled from the spec: the declarations of \<open>./type\<close> (\<open>RunMode\<close>,
  \<open>MainMsg\<close>, \<open>WorkerMsg\<close>), which are not in the sources. The spec's transport
  message has the request variants init, run (with a mode among query, raw and exec, the
  SQL text and the bound parameters) and close, and the response
  \<open>{type, data|null, err|null}\<close>. Of an init request the model keeps the two fields
  the worker reads, \<open>url\<close> and \<open>cache\<close>. The worker tests a mode against
  \<open>'exec'\<close> and \<open>'query'\<close> only. A thrown value is an error object, modelled by
  its message; in a response \<open>None\<close> is \<open>null\<close>.
\<close>

datatype RunMode = Query | Raw | Exec

datatype sql_value = VNull | VInt int | VText string

datatype msg_type = InitType | RunType | CloseType

datatype MainMsg =
  Init string bool
| Run RunMode string "sql_value list"
| Close

fun main_type :: "MainMsg \<Rightarrow> msg_type" where
  "main_type (Init url cache) = InitType"
| "main_type (Run mode sql parameters) = RunType"
| "main_type Close = CloseType"

record 'row QueryResult =
  rows :: "'row list"
  insertId :: "int option"
  numAffectedRows :: "int option"

record 'row WorkerMsg =
  wtype :: msg_type
  wdata :: "'row QueryResult option"
  werr :: "string option"

text \<open>
  \<open>bun:sqlite\<close> is a parameter of the model. Each operation either throws, leaving
  the database as it was, or returns. \<open>stmt.all\<close> and \<open>stmt.run\<close> execute the
  statement and so return the database they leave; \<open>last_insert_rowid\<close> and
  \<open>changes\<close> stand for the two \<open>db.query('SELECT ...').get()\<close> reads.
\<close>

record ('db, 'stmt, 'row) bun_sqlite =
  new_Database :: "string \<Rightarrow> string + 'db"
  db_query :: "'db \<Rightarrow> string \<Rightarrow> string + 'stmt"
  db_prepare :: "'db \<Rightarrow> string \<Rightarrow> string + 'stmt"
  stmt_all :: "'stmt \<Rightarrow> sql_value list \<Rightarrow> 'db \<Rightarrow> string + 'row list \<times> 'db"
  stmt_run :: "'stmt \<Rightarrow> sql_value list \<Rightarrow> 'db \<Rightarrow> string + 'db"
  last_insert_rowid :: "'db \<Rightarrow> string + int"
  changes :: "'db \<Rightarrow> string + int"
  db_close :: "'db \<Rightarrow> string + 'db"

text \<open>The module variables \<open>db\<close> and \<open>cache\<close>; before \<open>init\<close> both are
  \<open>undefined\<close> (for \<open>cache\<close>, which is only tested for truth, that is \<open>False\<close>).\<close>

record 'db worker_state =
  db :: "'db option"
  cache :: bool

text \<open>
  \<open>run\<close>, lines 7-26. The result pairs what the function returns or throws with the
  worker state it leaves: a statement that has run stays run when a later step throws.
\<close>

definition run ::
  "('db, 'stmt, 'row) bun_sqlite \<Rightarrow> RunMode \<Rightarrow> string \<Rightarrow> sql_value list \<Rightarrow> 'db worker_state \<Rightarrow>
     (string + 'row QueryResult) \<times> 'db worker_state" where
  "run sqlite mode sql parameters st =
     (case db st of
        None \<Rightarrow> (Inl ''TypeError: undefined is not an object'', st)
      | Some d \<Rightarrow>
          (case (if cache st then db_query sqlite d sql else db_prepare sqlite d sql) of
             Inl err \<Rightarrow> (Inl err, st)
           | Inr stmt \<Rightarrow>
               (case (if mode \<noteq> Exec then stmt_all sqlite stmt parameters d else Inr ([], d)) of
                  Inl err \<Rightarrow> (Inl err, st)
                | Inr (rs, d1) \<Rightarrow>
                    if mode = Query
                    then (Inr \<lparr>rows = rs, insertId = None, numAffectedRows = None\<rparr>,
                          st\<lparr>db := Some d1\<rparr>)
                    else
                      (case stmt_run sqlite stmt parameters d1 of
                         Inl err \<Rightarrow> (Inl err, st\<lparr>db := Some d1\<rparr>)
                       | Inr d2 \<Rightarrow>
                           (case last_insert_rowid sqlite d2 of
                              Inl err \<Rightarrow> (Inl err, st\<lparr>db := Some d2\<rparr>)
                            | Inr i \<Rightarrow>
                                (case changes sqlite d2 of
                                   Inl err \<Rightarrow> (Inl err, st\<lparr>db := Some d2\<rparr>)
                                 | Inr c \<Rightarrow>
                                     (Inr \<lparr>rows = rs, insertId = Some i,
                                           numAffectedRows = Some c\<rparr>,
                                      st\<lparr>db := Some d2\<rparr>)))))))"

text \<open>The \<open>switch\<close> inside the \<open>try\<close> of \<open>onmessage\<close>, lines 36-47: what it
  throws, or the value it leaves in \<open>ret.data\<close>.\<close>

fun handle ::
  "('db, 'stmt, 'row) bun_sqlite \<Rightarrow> MainMsg \<Rightarrow> 'db worker_state \<Rightarrow>
     (string + 'row QueryResult option) \<times> 'db worker_state" where
  "handle sqlite (Run mode sql parameters) st =
     (case run sqlite mode sql parameters st of
        (Inl err, st') \<Rightarrow> (Inl err, st')
      | (Inr r, st') \<Rightarrow> (Inr (Some r), st'))"
| "handle sqlite Close st =
     (case db st of
        None \<Rightarrow> (Inl ''TypeError: undefined is not an object'', st)
      | Some d \<Rightarrow>
          (case db_close sqlite d of
             Inl err \<Rightarrow> (Inl err, st)
           | Inr d' \<Rightarrow> (Inr None, st\<lparr>db := Some d'\<rparr>)))"
| "handle sqlite (Init url c) st =
     (case new_Database sqlite url of
        Inl err \<Rightarrow> (Inl err, st)
      | Inr d \<Rightarrow> (Inr None, st\<lparr>db := Some d, cache := c\<rparr>))"

text \<open>\<open>onmessage\<close>, lines 29-52: the new worker state and the messages posted.\<close>

definition onmessage ::
  "('db, 'stmt, 'row) bun_sqlite \<Rightarrow> MainMsg \<Rightarrow> 'db worker_state \<Rightarrow>
     'db worker_state \<times> 'row WorkerMsg list" where
  "onmessage sqlite data st =
     (let ret = \<lparr>wtype = main_type data, wdata = None, werr = None\<rparr> in
      case handle sqlite data st of
        (Inr v, st') \<Rightarrow> (st', [ret\<lparr>wdata := v\<rparr>])
      | (Inl error, st') \<Rightarrow> (st', [ret\<lparr>werr := Some error\<rparr>]))"

text \<open>
  A small engine for the examples: the database is the list of the rows of one table
  with the count of rows the last statement changed; \<open>INSERT\<close> appends its first
  parameter as a row, \<open>SELECT\<close> returns all rows, any other text does not compile.
\<close>

record toy_db =
  toy_rows :: "sql_value list"
  toy_changes :: int

definition toy_compile :: "toy_db \<Rightarrow> string \<Rightarrow> string + string" where
  "toy_compile d sql =
     (if sql = ''INSERT'' \<or> sql = ''SELECT'' then Inr sql else Inl ''syntax error'')"

definition toy_step :: "string \<Rightarrow> sql_value list \<Rightarrow> toy_db \<Rightarrow> string + sql_value list \<times> toy_db" where
  "toy_step stmt ps d =
     (if stmt = ''INSERT'' then
        (case ps of
           [] \<Rightarrow> Inl ''missing parameter''
         | p # _ \<Rightarrow> Inr ([], \<lparr>toy_rows = toy_rows d @ [p], toy_changes = 1\<rparr>))
      else Inr (toy_rows d, d))"

definition toy_sqlite :: "(toy_db, string, sql_value) bun_sqlite" where
  "toy_sqlite =
     \<lparr>new_Database = (\<lambda>url. Inr \<lparr>toy_rows = [], toy_changes = 0\<rparr>),
      db_query = toy_compile,
      db_prepare = toy_compile,
      stmt_all = toy_step,
      stmt_run = (\<lambda>stmt ps d. map_sum id snd (toy_step stmt ps d)),
      last_insert_rowid = (\<lambda>d. Inr (int (length (toy_rows d)))),
      changes = (\<lambda>d. Inr (toy_changes d)),
      db_close = (\<lambda>d. Inr d)\<rparr>"

definition toyOpen :: "toy_db worker_state" where
  "toyOpen = \<lparr>db = Some \<lparr>toy_rows = [], toy_changes = 0\<rparr>, cache = False\<rparr>"

section \<open>The worker driver (playground/src/modules/utils.ts)\<close>

text \<open>
  The driver talks to its worker through \<open>postMessage\<close> and hears from it through
  an emitter. Objects that are shared and mutated (workers, emitters, promises) live in
  stores, lists indexed by reference, so that two references to one emitter see the same
  handlers. A rejection carries the value given to \<open>reject\<close>, \<open>None\<close> for
  \<open>null\<close> or \<open>undefined\<close>.
\<close>

text \<open>
  Modelled from the spec: the messages of the driver's \<open>./type\<close> (\<open>MainMsg\<close>,
  \<open>WorkerMsg\<close>, \<open>EventWithError\<close>), which are not in the sources. By the spec a
  request is init (db identifier, location), run (mode, SQL text, bound parameters) or
  close, and a response is \<open>{type, data|null, err|null}\<close>; the driver splits a
  response into its type and the rest, \<open>{ data, err }\<close>.
\<close>

datatype DriverMsg =
  PostInit string string
| PostRun RunMode string "sql_value list"
| PostClose

record CompiledQuery =
  query_kind :: string
  query_sql :: string
  query_parameters :: "sql_value list"

datatype 'r promise_state = Pending | Resolved 'r | Rejected "string option"

text \<open>The three callbacks given to \<open>once\<close>, each with the promise it settles.\<close>

datatype handler = OnInit nat | OnRun nat | OnClose nat

record worker_object =
  posted :: "DriverMsg list"
  terminated :: bool

text \<open>A \<open>WaSqliteWorkerConnection\<close>: its two \<open>readonly\<close> fields.\<close>

record connection_object =
  conn_worker :: nat
  conn_mitt :: "nat option"

record 'row driver =
  config_dbName :: string
  config_url :: string
  worker :: "nat option"
  mitt :: "nat option"
  connection :: "connection_object option"
  workers :: "worker_object list"
  emitters :: "(msg_type \<times> handler) list list"
  promises :: "'row QueryResult option promise_state list"

text \<open>The rest of a worker's answer, \<open>{ data, err }\<close>.\<close>

record 'row EventWithError =
  ev_data :: "'row QueryResult option"
  ev_err :: "string option"

definition postMessage :: "nat \<Rightarrow> DriverMsg \<Rightarrow> 'row driver \<Rightarrow> 'row driver" where
  "postMessage w m d =
     d\<lparr>workers := (workers d)[w := (workers d ! w)\<lparr>posted := posted (workers d ! w) @ [m]\<rparr>]\<rparr>"

definition newPromise :: "'row driver \<Rightarrow> nat \<times> 'row driver" where
  "newPromise d = (length (promises d), d\<lparr>promises := promises d @ [Pending]\<rparr>)"

text \<open>\<open>resolve\<close> and \<open>reject\<close> settle a pending promise and do nothing to a
  settled one.\<close>

definition settle :: "nat \<Rightarrow> 'row QueryResult option promise_state \<Rightarrow> 'row driver \<Rightarrow> 'row driver" where
  "settle p v d =
     (if p < length (promises d) \<and> promises d ! p = Pending
      then d\<lparr>promises := (promises d)[p := v]\<rparr> else d)"

text \<open>
  Modelled from the spec: the emitter of \<open>./mitt\<close> (\<open>MittOnce\<close>), which is not
  in the sources. The spec gives it one-shot event semantics: each request expects
  exactly one matching response, then the association is discarded. So \<open>once\<close>
  adds a handler under a message type, \<open>emit\<close> takes the handlers of the type out
  of the emitter and calls them in the order they were added, and \<open>all.clear()\<close>
  removes every handler.
\<close>

definition once :: "nat \<Rightarrow> msg_type \<Rightarrow> handler \<Rightarrow> 'row driver \<Rightarrow> 'row driver" where
  "once e t h d = d\<lparr>emitters := (emitters d)[e := emitters d ! e @ [(t, h)]]\<rparr>"

definition clear_all :: "nat \<Rightarrow> 'row driver \<Rightarrow> 'row driver" where
  "clear_all e d = d\<lparr>emitters := (emitters d)[e := []]\<rparr>"

text \<open>The bodies of the three callbacks: lines 96-98 and, folded into the same step,
  the continuation of \<open>init\<close> (line 100); lines 199-201; lines 136-145.\<close>

fun call_handler :: "handler \<Rightarrow> 'row EventWithError \<Rightarrow> 'row driver \<Rightarrow> 'row driver" where
  "call_handler (OnInit p) ev d =
     (case ev_err ev of
        Some err \<Rightarrow> settle p (Rejected (Some err)) d
      | None \<Rightarrow>
          (case worker d of
             None \<Rightarrow> settle p (Resolved None) d
           | Some w \<Rightarrow>
               (settle p (Resolved None) d)
                 \<lparr>connection := Some \<lparr>conn_worker = w, conn_mitt = mitt d\<rparr>\<rparr>))"
| "call_handler (OnRun p) ev d =
     (case (ev_err ev, ev_data ev) of
        (None, Some r) \<Rightarrow> settle p (Resolved (Some r)) d
      | (err, _) \<Rightarrow> settle p (Rejected err) d)"
| "call_handler (OnClose p) ev d =
     (case ev_err ev of
        Some err \<Rightarrow> settle p (Rejected (Some err)) d
      | None \<Rightarrow>
          (let d1 = (case worker d of
                       None \<Rightarrow> d
                     | Some w \<Rightarrow> d\<lparr>workers := (workers d)[w := (workers d ! w)\<lparr>terminated := True\<rparr>]\<rparr>);
               d2 = (case mitt d1 of None \<Rightarrow> d1 | Some e \<Rightarrow> clear_all e d1);
               d3 = d2\<lparr>mitt := None\<rparr>
           in settle p (Resolved None) d3))"

fun call_handlers :: "handler list \<Rightarrow> 'row EventWithError \<Rightarrow> 'row driver \<Rightarrow> 'row driver" where
  "call_handlers [] ev d = d"
| "call_handlers (h # hs) ev d = call_handlers hs ev (call_handler h ev d)"

definition emit :: "nat \<Rightarrow> msg_type \<Rightarrow> 'row EventWithError \<Rightarrow> 'row driver \<Rightarrow> 'row driver" where
  "emit e t ev d =
     (let hs = map snd (filter (\<lambda>th. fst th = t) (emitters d ! e));
          d1 = d\<lparr>emitters := (emitters d)[e := filter (\<lambda>th. fst th \<noteq> t) (emitters d ! e)]\<rparr>
      in call_handlers hs ev d1)"

text \<open>\<open>worker.onmessage\<close>, lines 86-88, for a message of worker \<open>w\<close>:
  \<open>this.mitt?.emit(type, msg)\<close>. A terminated worker delivers nothing.\<close>

definition deliver :: "nat \<Rightarrow> msg_type \<Rightarrow> 'row EventWithError \<Rightarrow> 'row driver \<Rightarrow> 'row driver" where
  "deliver w t ev d =
     (if w < length (workers d) \<and> \<not> terminated (workers d ! w)
      then (case mitt d of None \<Rightarrow> d | Some e \<Rightarrow> emit e t ev d)
      else d)"

fun deliver_all :: "nat \<Rightarrow> (msg_type \<times> 'row EventWithError) list \<Rightarrow> 'row driver \<Rightarrow> 'row driver" where
  "deliver_all w [] d = d"
| "deliver_all w (m # ms) d = deliver_all w ms (deliver w (fst m) (snd m) d)"

text \<open>\<open>init\<close>, lines 82-99, up to the promise it awaits. A new worker is created;
  the optional \<open>config.worker\<close> and \<open>config.onCreateConnection\<close> are left
  out.\<close>

definition init :: "'row driver \<Rightarrow> nat \<times> 'row driver" where
  "init d =
     (let w = length (workers d);
          e = length (emitters d);
          d1 = d\<lparr>worker := Some w, workers := workers d @ [\<lparr>posted = [], terminated = False\<rparr>],
                 mitt := Some e, emitters := emitters d @ [[]]\<rparr>;
          d2 = postMessage w (PostInit (config_dbName d) (config_url d)) d1;
          (p, d3) = newPromise d2
      in (p, once e InitType (OnInit p) d3))"

text \<open>\<open>executeQuery\<close>, lines 186-203, with the connection it is called on. After
  \<open>reject\<close>, \<open>this.mitt!.once\<close> throws inside the promise executor; the promise is
  already rejected and stays so.\<close>

definition queryMode :: "string \<Rightarrow> RunMode" where
  "queryMode kind =
     (if kind = ''SelectQueryNode'' then Query
      else if kind = ''RawNode'' then Raw
      else Exec)"

definition executeQuery :: "connection_object \<Rightarrow> CompiledQuery \<Rightarrow> 'row driver \<Rightarrow> nat \<times> 'row driver" where
  "executeQuery c compiledQuery d =
     (let mode = queryMode (query_kind compiledQuery);
          msg = PostRun mode (query_sql compiledQuery) (query_parameters compiledQuery);
          d1 = postMessage (conn_worker c) msg d;
          (p, d2) = newPromise d1
      in case conn_mitt c of
           None \<Rightarrow> (p, settle p (Rejected (Some ''kysely instance has been destroyed'')) d2)
         | Some e \<Rightarrow> (p, once e RunType (OnRun p) d2))"

text \<open>\<open>destroy\<close>, lines 128-147: the promise it returns, if it does not return at
  once.\<close>

definition destroy :: "'row driver \<Rightarrow> nat option \<times> 'row driver" where
  "destroy d =
     (case worker d of
        None \<Rightarrow> (None, d)
      | Some w \<Rightarrow>
          (let d1 = postMessage w PostClose d;
               (p, d2) = newPromise d1
           in case mitt d2 of
                None \<Rightarrow> (Some p, d2)
              | Some e \<Rightarrow> (Some p, once e CloseType (OnClose p) d2)))"

definition newDriver :: "string \<Rightarrow> string \<Rightarrow> 'row driver" where
  "newDriver dbName url =
     \<lparr>config_dbName = dbName, config_url = url, worker = None, mitt = None, connection = None,
      workers = [], emitters = [], promises = []\<rparr>"

definition ok_event :: "'row EventWithError" where
  "ok_event = \<lparr>ev_data = None, ev_err = None\<rparr>"

definition selectQuery :: CompiledQuery where
  "selectQuery =
     \<lparr>query_kind = ''SelectQueryNode'', query_sql = ''select * from test'', query_parameters = []\<rparr>"

text \<open>
  Sessions of the playground. In \<open>readyDriver\<close> the driver is initialised and the
  worker has acknowledged; \<open>playgroundConnection\<close> is the connection it then holds.
  In \<open>destroyedInFlight\<close>, \<open>destroy\<close> is called, a select is submitted on the
  connection, and the worker acknowledges the close. In \<open>queryAfterDestroy\<close> the
  close is acknowledged first and the select submitted afterwards.
\<close>

definition readyDriver :: "sql_value driver" where
  "readyDriver = deliver 0 InitType ok_event (snd (init (newDriver ''db'' ''url'')))"

definition playgroundConnection :: connection_object where
  "playgroundConnection = \<lparr>conn_worker = 0, conn_mitt = Some 0\<rparr>"

definition destroyedInFlight :: "sql_value driver" where
  "destroyedInFlight =
     deliver 0 CloseType ok_event
       (snd (executeQuery playgroundConnection selectQuery (snd (destroy readyDriver))))"

definition queryAfterDestroy :: "sql_value driver" where
  "queryAfterDestroy =
     snd (executeQuery playgroundConnection selectQuery
            (deliver 0 CloseType ok_event (snd (destroy readyDriver))))"

section \<open>The connection mutex (playground/src/modules/utils.ts)\<close>

text \<open>
  \<open>ConnectionMutex\<close> has two fields, \<open>promise\<close> and \<open>resolve\<close>; \<open>resolve\<close>
  is the resolver of \<open>promise\<close> whenever that is set, so the model keeps the promise
  alone, by number. JavaScript runs one job at a time: a call of \<open>lock\<close> runs without
  interruption up to its \<open>await\<close> or its end, and a task resumed by a resolved promise
  waits in the microtask queue for its turn. The model keeps the tasks suspended in
  \<open>await this.promise\<close> with the promise they wait for, in the order they
  suspended; the microtask queue of resumed tasks; the tasks whose \<open>lock\<close> has
  returned, in that order; and among them those that have not released yet.
\<close>

record mutex =
  mx_promise :: "nat option"
  mx_fresh :: nat
  mx_suspended :: "(nat \<times> nat) list"
  mx_microtasks :: "nat list"
  mx_granted :: "nat list"
  mx_holders :: "nat list"

definition newMutex :: mutex where
  "newMutex = \<lparr>mx_promise = None, mx_fresh = 0, mx_suspended = [], mx_microtasks = [],
               mx_granted = [], mx_holders = []\<rparr>"

text \<open>One evaluation of the loop condition of \<open>lock\<close> by task \<open>t\<close>, lines 155-161:
  suspend on the promise that is set, or leave the loop, set a new promise and return.\<close>

definition lock_attempt :: "nat \<Rightarrow> mutex \<Rightarrow> mutex" where
  "lock_attempt t m =
     (case mx_promise m of
        Some p \<Rightarrow> m\<lparr>mx_suspended := mx_suspended m @ [(p, t)]\<rparr>
      | None \<Rightarrow> m\<lparr>mx_promise := Some (mx_fresh m), mx_fresh := Suc (mx_fresh m),
                   mx_granted := mx_granted m @ [t], mx_holders := mx_holders m @ [t]\<rparr>)"

text \<open>\<open>unlock\<close>, lines 164-171: resolving the promise queues the tasks suspended on
  it, in order.\<close>

definition unlock :: "mutex \<Rightarrow> mutex" where
  "unlock m =
     (case mx_promise m of
        None \<Rightarrow> m
      | Some p \<Rightarrow>
          m\<lparr>mx_promise := None,
            mx_suspended := filter (\<lambda>pt. fst pt \<noteq> p) (mx_suspended m),
            mx_microtasks := mx_microtasks m @
               map snd (filter (\<lambda>pt. fst pt = p) (mx_suspended m))\<rparr>)"

text \<open>
  What can happen to a driver: a task calls \<open>acquireConnection\<close>; a task calls
  \<open>releaseConnection\<close>; the next microtask runs. A task releases only what it
  holds, and a microtask runs only when there is one: \<open>mutex_step\<close> is \<open>None\<close>
  for an event that cannot happen.
\<close>

datatype mutex_event = Acquire nat | Release nat | Tick

fun mutex_step :: "mutex_event \<Rightarrow> mutex \<Rightarrow> mutex option" where
  "mutex_step (Acquire t) m = Some (lock_attempt t m)"
| "mutex_step (Release t) m =
     (if t \<in> set (mx_holders m)
      then Some ((unlock m)\<lparr>mx_holders := remove1 t (mx_holders m)\<rparr>)
      else None)"
| "mutex_step Tick m =
     (case mx_microtasks m of
        [] \<Rightarrow> None
      | t # ts \<Rightarrow> Some (lock_attempt t (m\<lparr>mx_microtasks := ts\<rparr>)))"

fun mutex_run :: "mutex_event list \<Rightarrow> mutex \<Rightarrow> mutex option" where
  "mutex_run [] m = Some m"
| "mutex_run (e # es) m =
     (case mutex_step e m of None \<Rightarrow> None | Some m' \<Rightarrow> mutex_run es m')"

text \<open>
  The invariant of the mutex: at most one task holds; the promise is set exactly while
  a task holds; every suspended task waits for the promise that is set.
\<close>

definition mutex_inv :: "mutex \<Rightarrow> bool" where
  "mutex_inv m =
     (length (mx_holders m) \<le> 1 \<and> (mx_promise m = None \<longleftrightarrow> mx_holders m = []) \<and>
      (\<forall>pt \<in> set (mx_suspended m). mx_promise m = Some (fst pt)))"

text \<open>The mutex after task 0 has acquired and task 1 has asked.\<close>

definition heldMutex :: mutex where
  "heldMutex = \<lparr>mx_promise = Some 0, mx_fresh = 1, mx_suspended = [(0, 1)], mx_microtasks = [],
               mx_granted = [0], mx_holders = [0]\<rparr>"

section \<open>Table definition (sqlite-builder/src/sync/define.ts)\<close>

text \<open>
  \<open>defineTable\<close> assigns to properties of the object it is given, so the columns
  objects live in a store, addressed by reference, and the function takes and returns
  the store. A columns object is a plain, extensible object with data properties: the
  model keeps its own entries, in the order \<open>Object.entries\<close> yields them (the
  array-index keys first, in ascending numeric order, then the other keys in insertion
  order), and the prototype an assignment may have given it (\<open>None\<close> is
  \<open>Object.prototype\<close>). \<open>notNull: 0\<close> is a number.
\<close>

text \<open>
  Modelled from the spec: the declarations of \<open>./types\<close> that \<open>defineTable\<close>
  uses (\<open>Columns\<close>, \<open>TableProperty\<close>, \<open>TimeTriggerOptions\<close>, \<open>Table\<close>),
  which are not in the sources. By the spec a column definition has a name, a logical
  type, nullability and a default value, which may be a sentinel meaning
  trigger-managed timestamp; a table definition has its columns and optional table
  properties, among them an optional time-trigger configuration: which column tracks
  row-creation time and which tracks row-update time, each either disabled, using a
  default name, or a custom name.
\<close>

datatype notnull_value = NotNullBool bool | NotNullNumber int


























section \<open>Theorems\<close>

subsection \<open>The columns of the create-table statement\<close>

lemma dataTypeOf_cases: "dataTypeOf ty = Text \<or> dataTypeOf ty = Integer \<or> dataTypeOf ty = Blob"
  by (simp add: dataTypeOf_def)

lemma sql_columns_addColumns:
  "sql_columns (addColumns ins upd es st) =
     sql_columns st @
     map (\<lambda>e. columnBuilder (fst e) (dataTypeOf (ctype (snd e))) (snd e))
       (filter (\<lambda>e. fst e \<noteq> ins \<and> fst e \<noteq> upd) es)"
  by (induction es arbitrary: st) (auto simp: addColumnStep_def Let_def)

lemma sql_columns_addPrimary: "sql_columns (addPrimary p st) = sql_columns st"
  by (auto simp: addPrimary_def split: option.splits)

lemma sql_columns_addUniques: "sql_columns (addUniques p us st) = sql_columns st"
  by (induction us arbitrary: st) (auto simp: addUniqueStep_def)

lemma sql_columns_buildTable:
  "sql_columns (buildTable t) =
     map (\<lambda>e. columnBuilder (fst e) (dataTypeOf (ctype (snd e))) (snd e))
       (filter (\<lambda>e. fst e \<noteq> insertColumnName (timestamp (tableProperty t)) \<and>
                    fst e \<noteq> updateColumnName (timestamp (tableProperty t))) (columns t))
     @ (if truthy_timestamp (timestamp (tableProperty t))
        then [plainColumn (insertColumnName (timestamp (tableProperty t))) Text,
              plainColumn (updateColumnName (timestamp (tableProperty t))) Text]
        else [])"
  by (simp add: buildTable_def Let_def sql_columns_addUniques sql_columns_addPrimary
      addTimestampColumns_def sql_columns_addColumns initialBuild_def)

lemma col_type_columnBuilder: "col_type (columnBuilder n ty opt) = ty"
  by (simp add: columnBuilder_def)

text \<open>
  C4 (as amended). Every column of the generated create-table statement has type text,
  integer or blob, never real. A declared column that is not one of the two timestamp
  columns is generated under its name, as text when its tag is string, boolean, date or
  object, as integer when its tag is number or increments, as blob when its tag is blob,
  and as text for every other tag, \<open>float\<close> included.
\<close>

theorem physical_type_normalization:
  assumes "(n, opt) \<in> set (columns t)"
    and "n \<noteq> insertColumnName (timestamp (tableProperty t))"
    and "n \<noteq> updateColumnName (timestamp (tableProperty t))"
  shows "(\<forall>c \<in> set (sql_columns (buildTable t)). col_type c \<in> {Text, Integer, Blob}) \<and>
         (\<exists>c \<in> set (sql_columns (buildTable t)).
            col_name c = n \<and>
            (ctype opt \<in> {''string'', ''boolean'', ''date'', ''object''} \<longrightarrow> col_type c = Text) \<and>
            (ctype opt \<in> {''number'', ''increments''} \<longrightarrow> col_type c = Integer) \<and>
            (ctype opt = ''blob'' \<longrightarrow> col_type c = Blob) \<and>
            (ctype opt \<notin> {''string'', ''boolean'', ''date'', ''object'', ''number'',
                           ''increments'', ''blob''}
               \<longrightarrow> col_type c = Text))"
proof
  show "\<forall>c \<in> set (sql_columns (buildTable t)). col_type c \<in> {Text, Integer, Blob}"
  proof
    fix c assume "c \<in> set (sql_columns (buildTable t))"
    then have "(\<exists>e. c = columnBuilder (fst e) (dataTypeOf (ctype (snd e))) (snd e)) \<or>
               (\<exists>n. c = plainColumn n Text)"
      unfolding sql_columns_buildTable by (auto split: if_splits)
    then show "col_type c \<in> {Text, Integer, Blob}"
    proof
      assume "\<exists>e. c = columnBuilder (fst e) (dataTypeOf (ctype (snd e))) (snd e)"
      then obtain e where "c = columnBuilder (fst e) (dataTypeOf (ctype (snd e))) (snd e)" ..
      then have "col_type c = dataTypeOf (ctype (snd e))" by (simp add: col_type_columnBuilder)
      with dataTypeOf_cases [of "ctype (snd e)"] show ?thesis by simp
    next
      assume "\<exists>n. c = plainColumn n Text"
      then show ?thesis by (auto simp: plainColumn_def)
    qed
  qed
next
  let ?c = "columnBuilder n (dataTypeOf (ctype opt)) opt"
  have "?c \<in> set (sql_columns (buildTable t))"
    unfolding sql_columns_buildTable using assms by force
  moreover have "col_name ?c = n" by (simp add: columnBuilder_def)
  moreover have "col_type ?c = dataTypeOf (ctype opt)" by (rule col_type_columnBuilder)
  ultimately show "\<exists>c \<in> set (sql_columns (buildTable t)).
            col_name c = n \<and>
            (ctype opt \<in> {''string'', ''boolean'', ''date'', ''object''} \<longrightarrow> col_type c = Text) \<and>
            (ctype opt \<in> {''number'', ''increments''} \<longrightarrow> col_type c = Integer) \<and>
            (ctype opt = ''blob'' \<longrightarrow> col_type c = Blob) \<and>
            (ctype opt \<notin> {''string'', ''boolean'', ''date'', ''object'', ''number'',
                           ''increments'', ''blob''}
               \<longrightarrow> col_type c = Text)"
    by (intro bexI[of _ ?c]) (auto simp: dataTypeOf_def)
qed

text \<open>The theorem at the \<open>blobtest\<close> column of the playground's table.\<close>

theorem physical_type_normalization_witness:
  "(''blobtest'', \<lparr>ctype = ''blob'', defaultTo = None, notNull = None\<rparr>) \<in> set (columns testTable) \<and>
   ''blobtest'' \<noteq> insertColumnName (timestamp (tableProperty testTable)) \<and>
   ''blobtest'' \<noteq> updateColumnName (timestamp (tableProperty testTable)) \<and>
   col_type ` set (sql_columns (buildTable testTable)) \<subseteq> {Text, Integer, Blob} \<and>
   (\<exists>c \<in> set (sql_columns (buildTable testTable)). col_name c = ''blobtest'' \<and> col_type c = Blob)"
proof -
  have h1: "(''blobtest'', \<lparr>ctype = ''blob'', defaultTo = None, notNull = None\<rparr>)
              \<in> set (columns testTable)"
    by (simp add: testTable_def)
  have h2: "''blobtest'' \<noteq> insertColumnName (timestamp (tableProperty testTable))"
    by (simp add: testTable_def tableProperty_def)
  have h3: "''blobtest'' \<noteq> updateColumnName (timestamp (tableProperty testTable))"
    by (simp add: testTable_def tableProperty_def)
  from physical_type_normalization [OF h1 h2 h3] h1 h2 h3 show ?thesis by auto
qed

text \<open>
  C4 as stated fails: a column tagged \<open>float\<close> is generated as text, not as real.
\<close>

theorem float_column_counterexample:
  "dataTypeOf ''float'' = Text \<and>
   map col_type (sql_columns (buildTable
     \<lparr>columns = [(''price'', \<lparr>ctype = ''float'', defaultTo = None, notNull = None\<rparr>)],
      property = None\<rparr>)) = [Text] \<and> Text \<noteq> Real"
  by (simp add: buildTable_def tableProperty_def emptyOption_def addColumnStep_def
      initialBuild_def addTimestampColumns_def addPrimary_def columnBuilder_def dataTypeOf_def
      Let_def)

subsection \<open>A run executes its list of statements\<close>

lemma runStatements_append:
  "runStatements k (xs @ ys) w =
     (case runStatements k xs w of Inl e \<Rightarrow> Inl e | Inr w' \<Rightarrow> runStatements k ys w')"
  by (induction xs arbitrary: w) (auto split: sum.splits)

lemma createIndexes_runStatements:
  "createIndexes k n is w = runStatements k (map (\<lambda>i. (False, indexStatement n i)) is) w"
  by (induction "is" arbitrary: w) (auto split: sum.splits)

lemma createTimeTriggers_runStatements:
  "createTimeTriggers k (fst entry) (snd entry) w = runStatements k (triggerStatements entry) w"
  by (auto simp: createTimeTriggers_def createTimeTrigger_def triggerStatements_def Let_def
      split: sum.splits)

lemma createOneTable_runStatements:
  "createOneTable k dr entry w = runStatements k (tableStatements dr entry) w"
  by (auto simp: createOneTable_def tableStatements_def creationStatements_def Let_def
      runStatements_append createIndexes_runStatements createTimeTriggers_runStatements
      dropBeforeInit_def split: sum.splits)

lemma runCreateTable_runStatements:
  "runCreateTable k tm dr w = runStatements k (concat (map (tableStatements dr) tm)) w"
  by (induction tm arbitrary: w)
     (auto simp: createOneTable_runStatements runStatements_append split: sum.splits)

lemma tableStatements_swallow:
  "(b, s) \<in> set (tableStatements dr entry) \<Longrightarrow> b = is_trigger s"
  by (auto simp: tableStatements_def creationStatements_def triggerStatements_def
      timeTriggerStatement_def indexStatement_def createTableStatement_def split: if_splits)


lemma runStatements_rejection:
  "runStatements k ss w = Inl err \<Longrightarrow> \<exists>s d. (False, s) \<in> set ss \<and> k s d = Inl err"
proof (induction ss arbitrary: w)
  case Nil
  then show ?case by simp
next
  case (Cons s ss)
  show ?case
  proof (cases "if fst s then catch_console w (execute k (snd s) w) else execute k (snd s) w")
    case (Inl e)
    with Cons.prems have e: "e = err" by simp
    from Inl have "\<not> fst s" by (auto simp: catch_console_def split: sum.splits if_splits)
    with Inl e have "k (snd s) (database w) = Inl err"
      by (auto simp: execute_def split: sum.splits)
    with \<open>\<not> fst s\<close> show ?thesis by (cases s) auto
  next
    case (Inr w')
    with Cons.prems have "runStatements k ss w' = Inl err" by simp
    from Cons.IH [OF this] show ?thesis by auto
  qed
qed

subsection \<open>Trigger creation never fails a run\<close>

lemma agree_simps:
  "agree R (Inl e) q = (q = Inl e)"
  "agree R (Inr x) (Inl e) = False"
  "agree R (Inr x) (Inr y) = R x y"
  by (simp_all add: agree_def)

lemma runStatements_agree:
  assumes sim: "\<And>s d d'. \<not> is_trigger s \<Longrightarrow> R d d' \<Longrightarrow> agree R (k s d) (k' s d')"
    and trig: "\<And>s d d' d1. is_trigger s \<Longrightarrow> R d d' \<Longrightarrow> k s d = Inr d1 \<Longrightarrow> R d1 d'"
    and trig': "\<And>s d d' d1. is_trigger s \<Longrightarrow> R d d' \<Longrightarrow> k' s d' = Inr d1 \<Longrightarrow> R d d1"
    and flags: "\<forall>bs \<in> set ss. fst bs = is_trigger (snd bs)"
    and rel: "R (database w) (database w')"
  shows "agree (\<lambda>v v'. R (database v) (database v'))
           (runStatements k ss w) (runStatements k' ss w')"
  using flags rel
proof (induction ss arbitrary: w w')
  case Nil
  then show ?case by (simp add: agree_simps)
next
  case (Cons bs ss)
  from Cons.prems(1) have fl: "fst bs = is_trigger (snd bs)"
    and rest: "\<forall>bs \<in> set ss. fst bs = is_trigger (snd bs)" by simp_all
  show ?case
  proof (cases "is_trigger (snd bs)")
    case False
    from sim [OF False Cons.prems(2)]
    have r: "agree R (k (snd bs) (database w)) (k' (snd bs) (database w'))" .
    show ?thesis
    proof (cases "k (snd bs) (database w)")
      case (Inl e)
      with r have "k' (snd bs) (database w') = Inl e" by (simp add: agree_simps)
      with Inl False fl show ?thesis by (simp add: execute_def agree_simps)
    next
      case (Inr d1)
      with r obtain d1' where d1': "k' (snd bs) (database w') = Inr d1'" and R1: "R d1 d1'"
        by (cases "k' (snd bs) (database w')") (auto simp: agree_simps)
      from R1 have "R (database (w\<lparr>database := d1\<rparr>)) (database (w'\<lparr>database := d1'\<rparr>))" by simp
      from Cons.IH [OF rest this] Inr d1' False fl show ?thesis by (simp add: execute_def)
    qed
  next
    case True
    obtain v where v: "catch_console w (execute k (snd bs) w) = Inr v" and Rv: "R (database v) (database w')"
    proof (cases "k (snd bs) (database w)")
      case (Inl e)
      then have "catch_console w (execute k (snd bs) w) = Inr (w\<lparr>console := console w @ [e]\<rparr>)"
        by (simp add: execute_def catch_console_def)
      with Cons.prems(2) that show ?thesis by simp
    next
      case (Inr d1)
      then have "catch_console w (execute k (snd bs) w) = Inr (w\<lparr>database := d1\<rparr>)"
        by (simp add: execute_def catch_console_def)
      with trig [OF True Cons.prems(2) Inr] that show ?thesis by simp
    qed
    obtain v' where v': "catch_console w' (execute k' (snd bs) w') = Inr v'" and Rv': "R (database v) (database v')"
    proof (cases "k' (snd bs) (database w')")
      case (Inl e)
      then have "catch_console w' (execute k' (snd bs) w') = Inr (w'\<lparr>console := console w' @ [e]\<rparr>)"
        by (simp add: execute_def catch_console_def)
      with Rv that show ?thesis by simp
    next
      case (Inr d1)
      then have "catch_console w' (execute k' (snd bs) w') = Inr (w'\<lparr>database := d1\<rparr>)"
        by (simp add: execute_def catch_console_def)
      with trig' [OF True Rv Inr] that show ?thesis by simp
    qed
    from Cons.IH [OF rest Rv'] v v' True fl show ?thesis by simp
  qed
qed

lemma exec_same_tables:
  "\<not> is_trigger s \<Longrightarrow> same_tables d d' \<Longrightarrow>
   agree same_tables (sqlite_exec acceptAll s d) (sqlite_exec rejectTriggers s d')"
  by (cases s)
     (auto simp: agree_simps same_tables_def acceptAll_def rejectTriggers_def table_columns_def)

lemma trigger_same_tables:
  "is_trigger s \<Longrightarrow> sqlite_exec acc s d = Inr d1 \<Longrightarrow> same_tables d1 d"
  by (cases s) (auto simp: same_tables_def split: if_splits)

lemma same_tables_trans: "same_tables a b \<Longrightarrow> same_tables b c \<Longrightarrow> same_tables a c"
  by (simp add: same_tables_def)

lemma same_tables_sym: "same_tables a b \<Longrightarrow> same_tables b a"
  by (simp add: same_tables_def)

text \<open>
  C2. Whatever the executor does with the trigger statement, \<open>createTimeTrigger\<close>
  resolves; when the statement is rejected, the error is written to the console and
  nothing else changes. A run of \<open>runCreateTable\<close> that rejects does so with the
  error of a statement that is not a trigger statement. And the outcome of a run does
  not depend on what happens to its trigger statements: take two executors and a
  relation \<open>R\<close> between their databases such that on related databases they answer
  every statement that is not a trigger statement alike (both reject with the same
  error, or both resolve in related databases), and such that a trigger statement
  that either of them accepts leaves the databases related. Then, from related
  databases, the two runs of \<open>runCreateTable\<close> on the same table map either both
  reject, with the same error, or both resolve, in related databases, however each
  executor treats each trigger statement.
\<close>

theorem trigger_failure_swallowed:
  "(\<exists>w'. createTimeTrigger kysely table event column key w = Inr w' \<and>
         (\<forall>err. kysely (timeTriggerStatement table event column key) (database w) = Inl err \<longrightarrow>
                w' = w\<lparr>console := console w @ [err]\<rparr>)) \<and>
   (\<forall>err. runCreateTable kysely tableMap dropTableBeforeInit w = Inl err \<longrightarrow>
          (\<exists>s d. \<not> is_trigger s \<and> kysely s d = Inl err)) \<and>
   ((\<forall>s d d'. \<not> is_trigger s \<and> R d d' \<longrightarrow> agree R (kysely s d) (kysely' s d')) \<and>
    (\<forall>s d d' d1. is_trigger s \<and> R d d' \<and> kysely s d = Inr d1 \<longrightarrow> R d1 d') \<and>
    (\<forall>s d d' d1. is_trigger s \<and> R d d' \<and> kysely' s d' = Inr d1 \<longrightarrow> R d d1) \<and>
    R (database w) (database v) \<longrightarrow>
    agree (\<lambda>x y. R (database x) (database y))
      (runCreateTable kysely tableMap dropTableBeforeInit w)
      (runCreateTable kysely' tableMap dropTableBeforeInit v))"
proof (intro conjI impI allI)
  show "\<exists>w'. createTimeTrigger kysely table event column key w = Inr w' \<and>
         (\<forall>err. kysely (timeTriggerStatement table event column key) (database w) = Inl err \<longrightarrow>
                w' = w\<lparr>console := console w @ [err]\<rparr>)"
    by (auto simp: createTimeTrigger_def catch_console_def execute_def split: sum.splits)
next
  fix err assume "runCreateTable kysely tableMap dropTableBeforeInit w = Inl err"
  then have "runStatements kysely
               (concat (map (tableStatements dropTableBeforeInit) tableMap)) w = Inl err"
    by (simp add: runCreateTable_runStatements)
  from runStatements_rejection [OF this] obtain s d where
    s: "(False, s) \<in> set (concat (map (tableStatements dropTableBeforeInit) tableMap))"
    and k: "kysely s d = Inl err" by blast
  from s have "\<not> is_trigger s" using tableStatements_swallow by fastforce
  with k show "\<exists>s d. \<not> is_trigger s \<and> kysely s d = Inl err" by blast
next
  assume h: "(\<forall>s d d'. \<not> is_trigger s \<and> R d d' \<longrightarrow> agree R (kysely s d) (kysely' s d')) \<and>
    (\<forall>s d d' d1. is_trigger s \<and> R d d' \<and> kysely s d = Inr d1 \<longrightarrow> R d1 d') \<and>
    (\<forall>s d d' d1. is_trigger s \<and> R d d' \<and> kysely' s d' = Inr d1 \<longrightarrow> R d d1) \<and>
    R (database w) (database v)"
  have flags: "\<forall>bs \<in> set (concat (map (tableStatements dropTableBeforeInit) tableMap)).
                 fst bs = is_trigger (snd bs)"
    using tableStatements_swallow by fastforce
  have "agree (\<lambda>x y. R (database x) (database y))
      (runStatements kysely (concat (map (tableStatements dropTableBeforeInit) tableMap)) w)
      (runStatements kysely' (concat (map (tableStatements dropTableBeforeInit) tableMap)) v)"
  proof (rule runStatements_agree [where R = R, OF _ _ _ flags])
    fix s d d' assume "\<not> is_trigger s" "R d d'"
    with h show "agree R (kysely s d) (kysely' s d')" by blast
  next
    fix s d d' d1 assume "is_trigger s" "R d d'" "kysely s d = Inr d1"
    with h show "R d1 d'" by blast
  next
    fix s d d' d1 assume "is_trigger s" "R d d'" "kysely' s d' = Inr d1"
    with h show "R d d1" by blast
  next
    from h show "R (database w) (database v)" by blast
  qed
  then show "agree (\<lambda>x y. R (database x) (database y))
      (runCreateTable kysely tableMap dropTableBeforeInit w)
      (runCreateTable kysely' tableMap dropTableBeforeInit v)"
    by (simp add: runCreateTable_runStatements)
qed

text \<open>
  The theorem at an engine that accepts every statement and one that rejects every
  trigger statement, related by holding the same tables and indexes. The trigger call
  on the rejecting engine resolves with the error on the console. The run of the
  playground's table resolves on both, with the same table, the rejecting engine
  logging two errors; the run of a map whose second table has no columns rejects on
  both with the error of that create-table statement.
\<close>

theorem trigger_failure_swallowed_witness:
  "createTimeTrigger (sqlite_exec rejectTriggers) ''test'' Insert ''createAt'' (Some ''id'')
       \<lparr>database = emptyCatalog, console = []\<rparr> =
     Inr \<lparr>database = emptyCatalog, console = [''syntax error'']\<rparr> \<and>
   runCreateTable (sqlite_exec acceptAll) [(''test'', testTable)] False
       \<lparr>database = emptyCatalog, console = []\<rparr> =
     Inr \<lparr>database = testCatalog, console = []\<rparr> \<and>
   runCreateTable (sqlite_exec rejectTriggers) [(''test'', testTable)] False
       \<lparr>database = emptyCatalog, console = []\<rparr> =
     Inr \<lparr>database = testCatalog\<lparr>triggers := []\<rparr>,
          console = [''syntax error'', ''syntax error'']\<rparr> \<and>
   agree (\<lambda>x y. same_tables (database x) (database y))
     (runCreateTable (sqlite_exec acceptAll) [(''test'', testTable)] False
        \<lparr>database = emptyCatalog, console = []\<rparr>)
     (runCreateTable (sqlite_exec rejectTriggers) [(''test'', testTable)] False
        \<lparr>database = emptyCatalog, console = []\<rparr>) \<and>
   runCreateTable (sqlite_exec acceptAll)
       [(''test'', testTable), (''t'', \<lparr>columns = [], property = None\<rparr>)] False
       \<lparr>database = emptyCatalog, console = []\<rparr> = Inl ''invalid table definition'' \<and>
   runCreateTable (sqlite_exec rejectTriggers)
       [(''test'', testTable), (''t'', \<lparr>columns = [], property = None\<rparr>)] False
       \<lparr>database = emptyCatalog, console = []\<rparr> = Inl ''invalid table definition'' \<and>
   (\<exists>s d. \<not> is_trigger s \<and> sqlite_exec acceptAll s d = Inl ''invalid table definition'')"
proof -
  let ?w = "\<lparr>database = emptyCatalog, console = []\<rparr>"
  let ?tm = "[(''test'', testTable), (''t'', \<lparr>columns = [], property = None\<rparr>)]"
  have rej: "sqlite_exec rejectTriggers
               (timeTriggerStatement ''test'' Insert ''createAt'' (Some ''id'')) (database ?w) =
             Inl ''syntax error''"
    by code_simp
  have fails: "runCreateTable (sqlite_exec acceptAll) ?tm False ?w = Inl ''invalid table definition''"
    by code_simp
  have run: "runCreateTable (sqlite_exec acceptAll) [(''test'', testTable)] False ?w =
     Inr \<lparr>database = testCatalog, console = []\<rparr>"
    by code_simp
  have run': "runCreateTable (sqlite_exec rejectTriggers) [(''test'', testTable)] False ?w =
     Inr \<lparr>database = testCatalog\<lparr>triggers := []\<rparr>,
          console = [''syntax error'', ''syntax error'']\<rparr>"
    by code_simp
  have h1: "\<forall>s d d'. \<not> is_trigger s \<and> same_tables d d' \<longrightarrow>
              agree same_tables (sqlite_exec acceptAll s d) (sqlite_exec rejectTriggers s d')"
    using exec_same_tables by blast
  have h2: "\<forall>s d d' d1. is_trigger s \<and> same_tables d d' \<and> sqlite_exec acceptAll s d = Inr d1 \<longrightarrow>
              same_tables d1 d'"
    using trigger_same_tables same_tables_trans by blast
  have h3: "\<forall>s d d' d1. is_trigger s \<and> same_tables d d' \<and> sqlite_exec rejectTriggers s d' = Inr d1 \<longrightarrow>
              same_tables d d1"
    using trigger_same_tables same_tables_trans same_tables_sym by blast
  have h4: "same_tables (database ?w) (database ?w)" by (simp add: same_tables_def)
  note thm1 = trigger_failure_swallowed
         [of "sqlite_exec rejectTriggers" "''test''" Insert "''createAt''" "Some ''id''" ?w,
          THEN conjunct1]
  from thm1 have a: "createTimeTrigger (sqlite_exec rejectTriggers) ''test'' Insert ''createAt'' (Some ''id'') ?w =
     Inr \<lparr>database = emptyCatalog, console = [''syntax error'']\<rparr>"
    using rej by auto
  note thm2 = trigger_failure_swallowed
         [of "sqlite_exec acceptAll" _ _ _ _ ?w ?tm False same_tables "sqlite_exec rejectTriggers" ?w]
  from thm2 [THEN conjunct2, THEN conjunct1]
  have b: "\<exists>s d. \<not> is_trigger s \<and> sqlite_exec acceptAll s d = Inl ''invalid table definition''"
    using fails by blast
  from thm2 [THEN conjunct2, THEN conjunct2] h1 h2 h3 h4 have "agree (\<lambda>x y. same_tables (database x) (database y))
      (runCreateTable (sqlite_exec acceptAll) ?tm False ?w)
      (runCreateTable (sqlite_exec rejectTriggers) ?tm False ?w)" by blast
  with fails have c: "runCreateTable (sqlite_exec rejectTriggers) ?tm False ?w =
      Inl ''invalid table definition''" by (simp add: agree_simps)
  note thm3 = trigger_failure_swallowed
         [of "sqlite_exec acceptAll" _ _ _ _ ?w "[(''test'', testTable)]" False same_tables
             "sqlite_exec rejectTriggers" ?w]
  from thm3 [THEN conjunct2, THEN conjunct2] h1 h2 h3 h4 have d: "agree (\<lambda>x y. same_tables (database x) (database y))
      (runCreateTable (sqlite_exec acceptAll) [(''test'', testTable)] False ?w)
      (runCreateTable (sqlite_exec rejectTriggers) [(''test'', testTable)] False ?w)" by blast
  from a b c d run run' fails show ?thesis by simp
qed

subsection \<open>The time triggers and their key\<close>

lemma haveAutoKey_addColumns:
  "haveAutoKey (addColumns ins upd es st) =
     (haveAutoKey st \<or>
      (\<exists>e \<in> set es. ctype (snd e) = ''increments'' \<and> fst e \<noteq> ins \<and> fst e \<noteq> upd))"
  by (induction es arbitrary: st) (auto simp: addColumnStep_def Let_def)

lemma triggerKey_addColumns:
  "triggerKey (addColumns ins upd es st) =
     (if filter (\<lambda>e. ctype (snd e) = ''increments'') es = [] then triggerKey st
      else Some (fst (last (filter (\<lambda>e. ctype (snd e) = ''increments'') es))))"
  by (induction es arbitrary: st) (auto simp: addColumnStep_def Let_def)

lemma triggerKey_addUniques:
  "triggerKey (addUniques p us st) =
     (if \<not> truthy_primary p \<and> \<not> haveAutoKey st \<and> us \<noteq> [] then key_first (last us)
      else triggerKey st)"
  by (induction us arbitrary: st) (auto simp: addUniqueStep_def)

lemma triggerKey_buildTable:
  "triggerKey (buildTable t) =
    (let p = tableProperty t;
         ins = insertColumnName (timestamp p); upd = updateColumnName (timestamp p);
         incs = incrementsColumns t;
         auto = (\<exists>e \<in> set (columns t).
                   ctype (snd e) = ''increments'' \<and> fst e \<noteq> ins \<and> fst e \<noteq> upd);
         us = (case unique p of None \<Rightarrow> [] | Some us \<Rightarrow> us)
     in if auto then Some (last incs)
        else if truthy_primary (primary p) then key_first (the (primary p))
        else if us \<noteq> [] then key_first (last us)
        else if incs \<noteq> [] then Some (last incs)
        else Some ''rowid'')"
  by (auto simp: buildTable_def Let_def triggerKey_addUniques addPrimary_def truthy_primary_def
      addTimestampColumns_def haveAutoKey_addColumns triggerKey_addColumns initialBuild_def
      incrementsColumns_def last_map filter_empty_conv
      split: option.splits)

lemma runCreateTable_append:
  "runCreateTable k (xs @ ys) dr w =
     (case runCreateTable k xs dr w of Inl e \<Rightarrow> Inl e | Inr w0 \<Rightarrow> runCreateTable k ys dr w0)"
  by (induction xs arbitrary: w) (auto split: sum.splits)

lemma createTimeTrigger_result:
  "createTimeTrigger k n ev c key w =
     Inr (case k (CreateTrigger (n @ ''_'' @ c) ev n c (keyOrDefault key)) (database w) of
            Inl err \<Rightarrow> w\<lparr>console := console w @ [err]\<rparr>
          | Inr d \<Rightarrow> w\<lparr>database := d\<rparr>)"
  by (simp add: createTimeTrigger_def catch_console_def execute_def timeTriggerStatement_def
      split: sum.splits)

lemma triggerKey_plain:
  assumes "\<forall>e \<in> set (columns t). ctype (snd e) = ''increments'' \<longrightarrow>
             fst e \<noteq> insertColumnName (timestamp (tableProperty t)) \<and>
             fst e \<noteq> updateColumnName (timestamp (tableProperty t))"
  shows "triggerKey (buildTable t) =
    (let p = tableProperty t; incs = incrementsColumns t;
         us = (case unique p of None \<Rightarrow> [] | Some us \<Rightarrow> us)
     in if incs \<noteq> [] then Some (last incs)
        else if truthy_primary (primary p) then key_first (the (primary p))
        else if us \<noteq> [] then key_first (last us)
        else Some ''rowid'')"
proof -
  have "(\<exists>e \<in> set (columns t). ctype (snd e) = ''increments'' \<and>
           fst e \<noteq> insertColumnName (timestamp (tableProperty t)) \<and>
           fst e \<noteq> updateColumnName (timestamp (tableProperty t))) =
        (incrementsColumns t \<noteq> [])"
    using assms by (auto simp: incrementsColumns_def filter_empty_conv)
  then show ?thesis unfolding triggerKey_buildTable Let_def by simp
qed

text \<open>
  C3 (as amended). Take a run of \<open>runCreateTable\<close> that resolves, on any executor,
  and a table of its map whose \<open>timestamp\<close> option is truthy and none of whose
  columns tagged \<open>increments\<close> bears the name of one of its two timestamp columns.
  Then the run reaches that table, drops it if asked to, creates it and its indexes,
  and submits both trigger statements to the executor, in this order, before it goes
  on with the rest of the map: \<open>after insert\<close> on the table, named table_column,
  setting the insert column, then \<open>after update\<close>, setting the update column; each
  is executed on the database the statement before it left, and a rejection only adds
  the error to the console. Both carry the same key in their \<open>where\<close> clause: the
  last column tagged \<open>increments\<close> when there is one; otherwise the first column
  of the declared primary key (and \<open>rowid\<close> when that is an empty array);
  otherwise the first column of the last unique constraint (\<open>rowid\<close> when that is
  an empty array); and \<open>rowid\<close> when the table has none of these.
\<close>

theorem time_triggers_issued:
  assumes run: "runCreateTable kysely (before @ (tableName, t) # after) dropTableBeforeInit w = Inr w'"
    and ts: "truthy_timestamp (timestamp (tableProperty t))"
    and plain: "\<forall>e \<in> set (columns t). ctype (snd e) = ''increments'' \<longrightarrow>
                  fst e \<noteq> insertColumnName (timestamp (tableProperty t)) \<and>
                  fst e \<noteq> updateColumnName (timestamp (tableProperty t))"
  shows "\<exists>w0 wd wc wi wt wu key.
     runCreateTable kysely before dropTableBeforeInit w = Inr w0 \<and>
     dropBeforeInit kysely dropTableBeforeInit tableName w0 = Inr wd \<and>
     execute kysely (createTableStatement tableName t) wd = Inr wc \<and>
     createIndexes kysely tableName
        (case index (tableProperty t) of None \<Rightarrow> [] | Some is \<Rightarrow> is) wc = Inr wi \<and>
     wt = (case kysely (CreateTrigger (tableName @ ''_'' @ insertColumnName (timestamp (tableProperty t)))
                          Insert tableName (insertColumnName (timestamp (tableProperty t))) key)
                  (database wi) of
             Inl err \<Rightarrow> wi\<lparr>console := console wi @ [err]\<rparr>
           | Inr d \<Rightarrow> wi\<lparr>database := d\<rparr>) \<and>
     wu = (case kysely (CreateTrigger (tableName @ ''_'' @ updateColumnName (timestamp (tableProperty t)))
                          Update tableName (updateColumnName (timestamp (tableProperty t))) key)
                  (database wt) of
             Inl err \<Rightarrow> wt\<lparr>console := console wt @ [err]\<rparr>
           | Inr d \<Rightarrow> wt\<lparr>database := d\<rparr>) \<and>
     runCreateTable kysely after dropTableBeforeInit wu = Inr w' \<and>
     (let p = tableProperty t; incs = incrementsColumns t;
          us = (case unique p of None \<Rightarrow> [] | Some us \<Rightarrow> us)
      in (incs \<noteq> [] \<longrightarrow> key = last incs) \<and>
         (incs = [] \<longrightarrow> (\<forall>k. primary p = Some k \<and> truthy_key k \<longrightarrow>
                            key = keyOrDefault (key_first k))) \<and>
         (incs = [] \<and> \<not> truthy_primary (primary p) \<and> us \<noteq> [] \<longrightarrow>
            key = keyOrDefault (key_first (last us))) \<and>
         (incs = [] \<and> \<not> truthy_primary (primary p) \<and> us = [] \<longrightarrow> key = ''rowid''))"
proof -
  let ?ts = "timestamp (tableProperty t)"
  let ?key = "keyOrDefault (triggerKey (buildTable t))"
  from run obtain w0 where w0: "runCreateTable kysely before dropTableBeforeInit w = Inr w0"
    and r1: "runCreateTable kysely ((tableName, t) # after) dropTableBeforeInit w0 = Inr w'"
    by (auto simp: runCreateTable_append split: sum.splits)
  from r1 obtain w5 where one: "createOneTable kysely dropTableBeforeInit (tableName, t) w0 = Inr w5"
    and rest: "runCreateTable kysely after dropTableBeforeInit w5 = Inr w'"
    by (auto split: sum.splits)
  from one obtain wd wc wi where
    wd: "dropBeforeInit kysely dropTableBeforeInit tableName w0 = Inr wd"
    and wc: "execute kysely (createTableStatement tableName t) wd = Inr wc"
    and wi: "createIndexes kysely tableName
        (case index (tableProperty t) of None \<Rightarrow> [] | Some is \<Rightarrow> is) wc = Inr wi"
    and tr: "createTimeTriggers kysely tableName t wi = Inr w5"
    by (auto simp: createOneTable_def Let_def split: sum.splits)
  define wt where "wt = (case kysely (CreateTrigger (tableName @ ''_'' @ insertColumnName ?ts)
                          Insert tableName (insertColumnName ?ts) ?key) (database wi) of
             Inl err \<Rightarrow> wi\<lparr>console := console wi @ [err]\<rparr>
           | Inr d \<Rightarrow> wi\<lparr>database := d\<rparr>)"
  define wu where "wu = (case kysely (CreateTrigger (tableName @ ''_'' @ updateColumnName ?ts)
                          Update tableName (updateColumnName ?ts) ?key) (database wt) of
             Inl err \<Rightarrow> wt\<lparr>console := console wt @ [err]\<rparr>
           | Inr d \<Rightarrow> wt\<lparr>database := d\<rparr>)"
  have "createTimeTriggers kysely tableName t wi = Inr wu"
    unfolding createTimeTriggers_def Let_def createTimeTrigger_result wt_def wu_def
    using ts by (simp only: if_True sum.case)
  with tr have "w5 = wu" by simp
  with rest have rest': "runCreateTable kysely after dropTableBeforeInit wu = Inr w'" by simp
  have key: "(let p = tableProperty t; incs = incrementsColumns t;
          us = (case unique p of None \<Rightarrow> [] | Some us \<Rightarrow> us)
      in (incs \<noteq> [] \<longrightarrow> ?key = last incs) \<and>
         (incs = [] \<longrightarrow> (\<forall>k. primary p = Some k \<and> truthy_key k \<longrightarrow>
                            ?key = keyOrDefault (key_first k))) \<and>
         (incs = [] \<and> \<not> truthy_primary (primary p) \<and> us \<noteq> [] \<longrightarrow>
            ?key = keyOrDefault (key_first (last us))) \<and>
         (incs = [] \<and> \<not> truthy_primary (primary p) \<and> us = [] \<longrightarrow> ?key = ''rowid''))"
    unfolding triggerKey_plain [OF plain] Let_def
    by (auto simp: keyOrDefault_def truthy_primary_def)
  from w0 wd wc wi wt_def wu_def rest' key show ?thesis by blast
qed

text \<open>The theorem at the playground's table, created in an empty database: its
  key is the auto-increment column \<open>id\<close>.\<close>

theorem time_triggers_issued_witness:
  "runCreateTable (sqlite_exec acceptAll) ([] @ (''test'', testTable) # []) False
       \<lparr>database = emptyCatalog, console = []\<rparr> = Inr \<lparr>database = testCatalog, console = []\<rparr> \<and>
   truthy_timestamp (timestamp (tableProperty testTable)) \<and>
   incrementsColumns testTable = [''id''] \<and>
   (\<exists>wi wt wu.
      createIndexes (sqlite_exec acceptAll) ''test'' [] \<lparr>database = testCatalog\<lparr>triggers := []\<rparr>, console = []\<rparr> = Inr wi \<and>
      wt = (case sqlite_exec acceptAll
                   (CreateTrigger ''test_createAt'' Insert ''test'' ''createAt'' ''id'') (database wi) of
              Inl err \<Rightarrow> wi\<lparr>console := console wi @ [err]\<rparr>
            | Inr d \<Rightarrow> wi\<lparr>database := d\<rparr>) \<and>
      wu = (case sqlite_exec acceptAll
                   (CreateTrigger ''test_updateAt'' Update ''test'' ''updateAt'' ''id'') (database wt) of
              Inl err \<Rightarrow> wt\<lparr>console := console wt @ [err]\<rparr>
            | Inr d \<Rightarrow> wt\<lparr>database := d\<rparr>) \<and>
      wu = \<lparr>database = testCatalog, console = []\<rparr>)"
proof -
  let ?w = "\<lparr>database = emptyCatalog, console = []\<rparr>"
  have run: "runCreateTable (sqlite_exec acceptAll) ([] @ (''test'', testTable) # []) False ?w =
       Inr \<lparr>database = testCatalog, console = []\<rparr>"
    by code_simp
  have ts: "truthy_timestamp (timestamp (tableProperty testTable))"
    by (simp add: testTable_def tableProperty_def)
  have ins: "insertColumnName (timestamp (tableProperty testTable)) = ''createAt''"
    and upd: "updateColumnName (timestamp (tableProperty testTable)) = ''updateAt''"
    and idx: "index (tableProperty testTable) = None"
    by (simp_all add: testTable_def tableProperty_def)
  have incs: "incrementsColumns testTable = [''id'']"
    by (simp add: testTable_def incrementsColumns_def)
  have plain: "\<forall>e \<in> set (columns testTable). ctype (snd e) = ''increments'' \<longrightarrow>
                  fst e \<noteq> insertColumnName (timestamp (tableProperty testTable)) \<and>
                  fst e \<noteq> updateColumnName (timestamp (tableProperty testTable))"
    unfolding ins upd by (simp add: testTable_def)
  have cr: "execute (sqlite_exec acceptAll) (createTableStatement ''test'' testTable) ?w =
              Inr \<lparr>database = testCatalog\<lparr>triggers := []\<rparr>, console = []\<rparr>"
    by code_simp
  have n1: "''test'' @ ''_'' @ ''createAt'' = ''test_createAt''"
    and n2: "''test'' @ ''_'' @ ''updateAt'' = ''test_updateAt''"
    and opt: "(case None :: key_spec list option of None \<Rightarrow> [] | Some is \<Rightarrow> is) = []"
    by simp_all
  from time_triggers_issued [OF run ts plain, unfolded Let_def ins upd idx n1 n2 opt]
  obtain w0 wd wc wi wt wu key where
    w0: "runCreateTable (sqlite_exec acceptAll) [] False ?w = Inr w0"
    and wd: "dropBeforeInit (sqlite_exec acceptAll) False ''test'' w0 = Inr wd"
    and wc: "execute (sqlite_exec acceptAll) (createTableStatement ''test'' testTable) wd = Inr wc"
    and wi: "createIndexes (sqlite_exec acceptAll) ''test'' [] wc = Inr wi"
    and wt: "wt = (case sqlite_exec acceptAll
                   (CreateTrigger ''test_createAt'' Insert ''test'' ''createAt'' key) (database wi) of
              Inl err \<Rightarrow> wi\<lparr>console := console wi @ [err]\<rparr>
            | Inr d \<Rightarrow> wi\<lparr>database := d\<rparr>)"
    and wu: "wu = (case sqlite_exec acceptAll
                   (CreateTrigger ''test_updateAt'' Update ''test'' ''updateAt'' key) (database wt) of
              Inl err \<Rightarrow> wt\<lparr>console := console wt @ [err]\<rparr>
            | Inr d \<Rightarrow> wt\<lparr>database := d\<rparr>)"
    and rest: "runCreateTable (sqlite_exec acceptAll) [] False wu = Inr \<lparr>database = testCatalog, console = []\<rparr>"
    and key: "incrementsColumns testTable \<noteq> [] \<longrightarrow> key = last (incrementsColumns testTable)"
    by blast
  from w0 wd have "wd = ?w" by (simp add: dropBeforeInit_def)
  with wc cr have wc': "wc = \<lparr>database = testCatalog\<lparr>triggers := []\<rparr>, console = []\<rparr>" by simp
  from key have k: "key = ''id''" unfolding incs by simp
  from rest have "wu = \<lparr>database = testCatalog, console = []\<rparr>" by simp
  with wi wt wu run ts incs show ?thesis unfolding wc' k by blast
qed

text \<open>
  C3 as stated fails: a table without a primary key but with a unique constraint gets
  triggers keyed by the unique column, not by \<open>rowid\<close>.
\<close>

theorem unique_key_counterexample:
  "primary (tableProperty userTable) = None \<and>
   runCreateTable (sqlite_exec acceptAll) [(''user'', userTable)] False
       \<lparr>database = emptyCatalog, console = []\<rparr> =
     Inr \<lparr>database =
           \<lparr>tables = [(''user'', \<lparr>tbl_columns = sql_columns (buildTable userTable),
                                   tbl_constraints = [UniqueConstraint ''un_email'' [''email'']]\<rparr>)],
            indexes = [],
            triggers = [(''user_createAt'', \<lparr>trg_event = Insert, trg_table = ''user'',
                                             trg_column = ''createAt'', trg_key = ''email''\<rparr>),
                        (''user_updateAt'', \<lparr>trg_event = Update, trg_table = ''user'',
                                             trg_column = ''updateAt'', trg_key = ''email''\<rparr>)]\<rparr>,
          console = []\<rparr> \<and>
   ''email'' \<noteq> ''rowid''"
  by code_simp

subsection \<open>A second run\<close>

lemma grows_refl: "grows d d"
  by (simp add: grows_def)

lemma grows_trans: "grows a b \<Longrightarrow> grows b c \<Longrightarrow> grows a c"
  unfolding grows_def by (meson subset_trans)

lemma counting_noop: "k s d = Inr d \<Longrightarrow> counting k s (d, n) = Inr (d, n)"
  by (simp add: counting_def)

lemma counting_reject: "k s d = Inl e \<Longrightarrow> counting k s (d, n) = Inl e"
  by (simp add: counting_def)

lemma stable_mono: "stable s d \<Longrightarrow> grows d d' \<Longrightarrow> stable s d'"
  by (cases s) (auto simp: grows_def has_name_def)

lemma settled_mono: "settled acc bs d \<Longrightarrow> grows d d' \<Longrightarrow> settled acc bs d'"
  by (auto simp: settled_def intro: stable_mono split: if_splits)

lemma exec_rejects: "\<not> acc s \<Longrightarrow> sqlite_exec acc s d = Inl ''syntax error''"
  by (cases s) auto

lemma exec_stable_noop: "acc s \<Longrightarrow> stable s d \<Longrightarrow> sqlite_exec acc s d = Inr d"
  by (cases s) auto

lemma exec_success:
  "sqlite_exec acc s d = Inr d' \<Longrightarrow> \<not> is_drop s \<Longrightarrow> acc s \<and> stable s d' \<and> grows d d'"
  by (cases s) (auto simp: grows_def has_name_def split: if_splits)

lemma trigger_rejected:
  "sqlite_exec acc (CreateTrigger n ev t c k) d = Inl e \<Longrightarrow> has_name t (tables d) \<Longrightarrow>
     \<not> acc (CreateTrigger n ev t c k)"
  by (auto split: if_splits)

text \<open>
  A segment of a run without a drop, whose caught statements are trigger statements on
  tables that exist when the segment starts: when it resolves, the catalog has only
  grown and every statement of the segment is settled.
\<close>

lemma segment_settles:
  assumes "runStatements (sqlite_exec acc) ss w = Inr w'"
    and "\<forall>bs \<in> set ss. \<not> is_drop (snd bs)"
    and "\<forall>bs \<in> set ss. fst bs \<longrightarrow>
           (\<exists>n ev t c k. snd bs = CreateTrigger n ev t c k \<and> has_name t (tables (database w)))"
  shows "grows (database w) (database w') \<and> (\<forall>bs \<in> set ss. settled acc bs (database w'))"
  using assms
proof (induction ss arbitrary: w)
  case Nil
  then show ?case by (simp add: grows_refl)
next
  case (Cons bs ss)
  let ?step = "if fst bs then catch_console w (execute (sqlite_exec acc) (snd bs) w)
               else execute (sqlite_exec acc) (snd bs) w"
  from Cons.prems(1) obtain w1 where step: "?step = Inr w1"
    and rest: "runStatements (sqlite_exec acc) ss w1 = Inr w'"
    by (auto split: sum.splits)
  have nd: "\<not> is_drop (snd bs)" using Cons.prems(2) by simp
  have one: "grows (database w) (database w1) \<and> settled acc bs (database w1)"
  proof (cases "sqlite_exec acc (snd bs) (database w)")
    case (Inr d1)
    with step have "database w1 = d1"
      by (auto simp: execute_def catch_console_def split: if_splits)
    with exec_success [OF Inr nd] show ?thesis by (simp add: settled_def)
  next
    case (Inl e)
    with step have b: "fst bs" and w1: "database w1 = database w"
      by (auto simp: execute_def catch_console_def split: if_splits)
    from b Cons.prems(3) obtain n ev t c k where
      s: "snd bs = CreateTrigger n ev t c k" and t: "has_name t (tables (database w))"
      by auto
    from Inl s t have "\<not> acc (snd bs)" using trigger_rejected by metis
    with b w1 show ?thesis by (simp add: settled_def grows_refl)
  qed
  have p3: "\<forall>bs \<in> set ss. fst bs \<longrightarrow>
           (\<exists>n ev t c k. snd bs = CreateTrigger n ev t c k \<and> has_name t (tables (database w1)))"
  proof (intro ballI impI)
    fix x assume "x \<in> set ss" "fst x"
    with Cons.prems(3) obtain n ev t c k where
      "snd x = CreateTrigger n ev t c k" "has_name t (tables (database w))" by auto
    moreover from one
    have "set (map fst (tables (database w))) \<subseteq> set (map fst (tables (database w1)))"
      by (simp add: grows_def)
    ultimately
    show "\<exists>n ev t c k. snd x = CreateTrigger n ev t c k \<and> has_name t (tables (database w1))"
      by (auto simp: has_name_def)
  qed
  from Cons.prems(2) have p2: "\<forall>bs \<in> set ss. \<not> is_drop (snd bs)" by simp
  from Cons.IH [OF rest p2 p3] have
    ih: "grows (database w1) (database w')" "\<forall>bs \<in> set ss. settled acc bs (database w')"
    by simp_all
  from one ih(1) have "grows (database w) (database w')" "settled acc bs (database w')"
    by (auto intro: grows_trans settled_mono)
  with ih(2) show ?case by simp
qed

lemma table_settles:
  assumes "runStatements (sqlite_exec acc) (tableStatements False entry) w = Inr w'"
  shows "grows (database w) (database w') \<and>
         (\<forall>bs \<in> set (tableStatements False entry). settled acc bs (database w'))"
proof -
  have split: "tableStatements False entry = creationStatements entry @ triggerStatements entry"
    by (simp add: tableStatements_def)
  from assms obtain w2 where
    c: "runStatements (sqlite_exec acc) (creationStatements entry) w = Inr w2" and
    t: "runStatements (sqlite_exec acc) (triggerStatements entry) w2 = Inr w'"
    by (auto simp: split runStatements_append split: sum.splits)
  have c2: "\<forall>bs \<in> set (creationStatements entry). \<not> is_drop (snd bs)"
    by (auto simp: creationStatements_def createTableStatement_def indexStatement_def)
  have c3: "\<forall>bs \<in> set (creationStatements entry). fst bs \<longrightarrow>
      (\<exists>n ev t c k. snd bs = CreateTrigger n ev t c k \<and> has_name t (tables (database w)))"
    by (auto simp: creationStatements_def)
  from segment_settles [OF c c2 c3] have
    g1: "grows (database w) (database w2)" and
    s1: "\<forall>bs \<in> set (creationStatements entry). settled acc bs (database w2)" by simp_all
  have "(False, createTableStatement (fst entry) (snd entry)) \<in> set (creationStatements entry)"
    by (simp add: creationStatements_def)
  with s1 have "settled acc (False, createTableStatement (fst entry) (snd entry)) (database w2)"
    by blast
  then have ex: "has_name (fst entry) (tables (database w2))"
    by (auto simp: settled_def createTableStatement_def split: if_splits)
  have t2: "\<forall>bs \<in> set (triggerStatements entry). \<not> is_drop (snd bs)"
    by (auto simp: triggerStatements_def timeTriggerStatement_def)
  have t3: "\<forall>bs \<in> set (triggerStatements entry). fst bs \<longrightarrow>
      (\<exists>n ev t c k. snd bs = CreateTrigger n ev t c k \<and> has_name t (tables (database w2)))"
    using ex by (auto simp: triggerStatements_def timeTriggerStatement_def)
  from segment_settles [OF t t2 t3] have
    g2: "grows (database w2) (database w')" and
    s2: "\<forall>bs \<in> set (triggerStatements entry). settled acc bs (database w')" by simp_all
  from s1 g2 have "\<forall>bs \<in> set (creationStatements entry). settled acc bs (database w')"
    by (blast intro: settled_mono)
  with s2 g1 g2 show ?thesis
    by (auto simp: split intro: grows_trans)
qed

lemma run_settles:
  assumes "runStatements (sqlite_exec acc) (concat (map (tableStatements False) tm)) w = Inr w'"
  shows "grows (database w) (database w') \<and>
         (\<forall>bs \<in> set (concat (map (tableStatements False) tm)). settled acc bs (database w'))"
  using assms
proof (induction tm arbitrary: w)
  case Nil
  then show ?case by (simp add: grows_refl)
next
  case (Cons entry tm)
  from Cons.prems obtain w1 where
    a: "runStatements (sqlite_exec acc) (tableStatements False entry) w = Inr w1" and
    b: "runStatements (sqlite_exec acc) (concat (map (tableStatements False) tm)) w1 = Inr w'"
    by (auto simp: runStatements_append split: sum.splits)
  from table_settles [OF a] have
    g1: "grows (database w) (database w1)" and
    s1: "\<forall>bs \<in> set (tableStatements False entry). settled acc bs (database w1)" by simp_all
  from Cons.IH [OF b] have
    g2: "grows (database w1) (database w')" and
    s2: "\<forall>bs \<in> set (concat (map (tableStatements False) tm)). settled acc bs (database w')"
    by simp_all
  from s1 g2 have "\<forall>bs \<in> set (tableStatements False entry). settled acc bs (database w')"
    by (blast intro: settled_mono)
  with s2 g1 g2 show ?case by (auto intro: grows_trans)
qed

text \<open>Settled statements run again change nothing but the console.\<close>

lemma settled_rerun:
  assumes "\<forall>bs \<in> set ss. settled acc bs d"
  shows "\<exists>errs.
     runStatements (counting (sqlite_exec acc)) ss \<lparr>database = (d, n), console = c\<rparr> =
       Inr \<lparr>database = (d, n), console = c @ errs\<rparr> \<and>
     runStatements (sqlite_exec acc) ss \<lparr>database = d, console = c\<rparr> =
       Inr \<lparr>database = d, console = c @ errs\<rparr>"
  using assms
proof (induction ss arbitrary: c)
  case Nil
  then show ?case by simp
next
  case (Cons bs ss)
  from Cons.prems have s: "settled acc bs d" and r: "\<forall>bs \<in> set ss. settled acc bs d"
    by simp_all
  show ?case
  proof (cases "acc (snd bs)")
    case True
    with s have "sqlite_exec acc (snd bs) d = Inr d"
      by (simp add: settled_def exec_stable_noop)
    moreover from Cons.IH [OF r, of c] obtain errs where
      "runStatements (counting (sqlite_exec acc)) ss \<lparr>database = (d, n), console = c\<rparr> =
         Inr \<lparr>database = (d, n), console = c @ errs\<rparr>"
      "runStatements (sqlite_exec acc) ss \<lparr>database = d, console = c\<rparr> =
         Inr \<lparr>database = d, console = c @ errs\<rparr>" by blast
    ultimately show ?thesis
      by (auto simp: execute_def catch_console_def counting_noop)
  next
    case False
    with s have b: "fst bs" by (simp add: settled_def)
    from False have e: "sqlite_exec acc (snd bs) d = Inl ''syntax error''" by (rule exec_rejects)
    from Cons.IH [OF r, of "c @ [''syntax error'']"] obtain errs where
      "runStatements (counting (sqlite_exec acc)) ss
          \<lparr>database = (d, n), console = c @ [''syntax error'']\<rparr> =
         Inr \<lparr>database = (d, n), console = (c @ [''syntax error'']) @ errs\<rparr>"
      "runStatements (sqlite_exec acc) ss \<lparr>database = d, console = c @ [''syntax error'']\<rparr> =
         Inr \<lparr>database = d, console = (c @ [''syntax error'']) @ errs\<rparr>" by blast
    with b e show ?thesis
      by (intro exI[of _ "''syntax error'' # errs"])
         (simp add: execute_def catch_console_def counting_reject)
  qed
qed

text \<open>
  C1 (as amended). With \<open>dropTableBeforeInit\<close> false, the default: when a run of
  \<open>runCreateTable\<close> has resolved, a second run on the database it left resolves
  too, no statement of it changes the database (the count of changing statements
  stays 0), and every table, index and trigger is exactly as the first run left it.
  Only the console may receive the errors of rejected trigger statements again.
\<close>

theorem second_run_changes_nothing:
  assumes "runCreateTable (sqlite_exec accepts) tableMap False w = Inr w1"
  shows "\<exists>errs.
     runCreateTable (counting (sqlite_exec accepts)) tableMap False
         \<lparr>database = (database w1, 0), console = console w1\<rparr> =
       Inr \<lparr>database = (database w1, 0), console = console w1 @ errs\<rparr> \<and>
     runCreateTable (sqlite_exec accepts) tableMap False
         \<lparr>database = database w1, console = console w1\<rparr> =
       Inr \<lparr>database = database w1, console = console w1 @ errs\<rparr>"
proof -
  from assms have
    "runStatements (sqlite_exec accepts) (concat (map (tableStatements False) tableMap)) w = Inr w1"
    by (simp add: runCreateTable_runStatements)
  from run_settles [OF this] have
    "\<forall>bs \<in> set (concat (map (tableStatements False) tableMap)). settled accepts bs (database w1)"
    by simp
  from settled_rerun [OF this, of 0 "console w1"] show ?thesis
    by (simp add: runCreateTable_runStatements)
qed

text \<open>The theorem at the playground's table, created in an empty database.\<close>

theorem second_run_changes_nothing_witness:
  "runCreateTable (sqlite_exec acceptAll) [(''test'', testTable)] False
       \<lparr>database = emptyCatalog, console = []\<rparr> = Inr \<lparr>database = testCatalog, console = []\<rparr> \<and>
   (\<exists>errs. runCreateTable (counting (sqlite_exec acceptAll)) [(''test'', testTable)] False
       \<lparr>database = (testCatalog, 0), console = []\<rparr> =
         Inr \<lparr>database = (testCatalog, 0), console = errs\<rparr> \<and>
     runCreateTable (sqlite_exec acceptAll) [(''test'', testTable)] False
       \<lparr>database = testCatalog, console = []\<rparr> = Inr \<lparr>database = testCatalog, console = errs\<rparr>)"
proof -
  have first: "runCreateTable (sqlite_exec acceptAll) [(''test'', testTable)] False
       \<lparr>database = emptyCatalog, console = []\<rparr> = Inr \<lparr>database = testCatalog, console = []\<rparr>"
    by code_simp
  from second_run_changes_nothing [OF first] first show ?thesis by simp
qed

text \<open>
  C1 as stated fails when \<open>dropTableBeforeInit\<close> is set: the second run drops the
  table, which takes its triggers with it, and creates all three again: four statements
  change the database, although it ends as it was.
\<close>

theorem drop_before_init_counterexample:
  "runCreateTable (sqlite_exec acceptAll) [(''test'', testTable)] True
       \<lparr>database = emptyCatalog, console = []\<rparr> = Inr \<lparr>database = testCatalog, console = []\<rparr> \<and>
   runCreateTable (counting (sqlite_exec acceptAll)) [(''test'', testTable)] True
       \<lparr>database = (testCatalog, 0), console = []\<rparr> =
     Inr \<lparr>database = (testCatalog, 4), console = []\<rparr>"
  by code_simp

subsection \<open>The worker answers every request once\<close>

text \<open>
  C6. For every request, whatever the worker's state and the engine, \<open>onmessage\<close>
  posts exactly one response; its type is the request's type; its \<open>err\<close> is set
  exactly when handling the request threw, and then its \<open>data\<close> is \<open>null\<close>.
\<close>

theorem one_response:
  "\<exists>resp st'. onmessage sqlite data st = (st', [resp]) \<and>
      wtype resp = main_type data \<and>
      (werr resp \<noteq> None \<longleftrightarrow> (\<exists>error. fst (handle sqlite data st) = Inl error)) \<and>
      (werr resp \<noteq> None \<longrightarrow> wdata resp = None)"
  by (cases "handle sqlite data st"; cases "fst (handle sqlite data st)")
     (auto simp: onmessage_def Let_def)

text \<open>The theorem at a \<open>run\<close> request that arrives before \<open>init\<close>: reading
  \<open>db\<close> throws, and the one response carries the error and no data.\<close>

theorem one_response_witness:
  "(\<exists>error. fst (handle toy_sqlite (Run Raw ''INSERT'' [VInt 7]) \<lparr>db = None, cache = False\<rparr>) =
             Inl error) \<and>
   (\<exists>resp st'. onmessage toy_sqlite (Run Raw ''INSERT'' [VInt 7]) \<lparr>db = None, cache = False\<rparr> =
                  (st', [resp]) \<and>
       wtype resp = RunType \<and> werr resp \<noteq> None \<and> wdata resp = None)"
proof -
  have threw: "\<exists>error. fst (handle toy_sqlite (Run Raw ''INSERT'' [VInt 7])
                              \<lparr>db = None, cache = False\<rparr>) = Inl error"
    by (simp add: run_def)
  with one_response [of toy_sqlite "Run Raw ''INSERT'' [VInt 7]" "\<lparr>db = None, cache = False\<rparr>"]
  show ?thesis by auto
qed

subsection \<open>Execution modes\<close>

text \<open>
  C7. The \<open>run\<close> request that \<open>executeQuery\<close> posts to the connection's worker
  carries a mode that is a function of the query node kind alone: \<open>query\<close> for
  \<open>SelectQueryNode\<close>, \<open>raw\<close> for \<open>RawNode\<close>, \<open>exec\<close> for any other kind. In
  the worker, once the statement is compiled on an open database: mode \<open>query\<close>
  returns the rows of \<open>stmt.all\<close> and neither insert id nor affected-row count, and
  leaves the database as \<open>stmt.all\<close> left it; mode \<open>exec\<close> returns no rows, leaves
  the database as \<open>stmt.run\<close> left it, and reports the insert id and the
  affected-row count read after it.
\<close>

theorem query_dispatch:
  "(conn_worker c < length (workers d) \<longrightarrow>
      posted (workers (snd (executeQuery c cq d)) ! conn_worker c) =
        posted (workers d ! conn_worker c) @
          [PostRun (if query_kind cq = ''SelectQueryNode'' then Query
                    else if query_kind cq = ''RawNode'' then Raw else Exec)
             (query_sql cq) (query_parameters cq)]) \<and>
   (db st = Some d0 \<and>
    (if cache st then db_query sqlite d0 sql else db_prepare sqlite d0 sql) = Inr stmt \<longrightarrow>
      (\<forall>rs d1. stmt_all sqlite stmt ps d0 = Inr (rs, d1) \<longrightarrow>
         run sqlite Query sql ps st =
           (Inr \<lparr>rows = rs, insertId = None, numAffectedRows = None\<rparr>, st\<lparr>db := Some d1\<rparr>)) \<and>
      (\<forall>d2 i n. stmt_run sqlite stmt ps d0 = Inr d2 \<and> last_insert_rowid sqlite d2 = Inr i \<and>
                 changes sqlite d2 = Inr n \<longrightarrow>
         run sqlite Exec sql ps st =
           (Inr \<lparr>rows = [], insertId = Some i, numAffectedRows = Some n\<rparr>, st\<lparr>db := Some d2\<rparr>)))"
proof (intro conjI impI allI)
  assume "conn_worker c < length (workers d)"
  then show "posted (workers (snd (executeQuery c cq d)) ! conn_worker c) =
        posted (workers d ! conn_worker c) @
          [PostRun (if query_kind cq = ''SelectQueryNode'' then Query
                    else if query_kind cq = ''RawNode'' then Raw else Exec)
             (query_sql cq) (query_parameters cq)]"
    by (auto simp: executeQuery_def queryMode_def postMessage_def newPromise_def settle_def
        once_def Let_def split: option.splits)
next
  fix rs d1
  assume "db st = Some d0 \<and>
    (if cache st then db_query sqlite d0 sql else db_prepare sqlite d0 sql) = Inr stmt"
    and "stmt_all sqlite stmt ps d0 = Inr (rs, d1)"
  then show "run sqlite Query sql ps st =
           (Inr \<lparr>rows = rs, insertId = None, numAffectedRows = None\<rparr>, st\<lparr>db := Some d1\<rparr>)"
    by (simp add: run_def)
next
  fix d2 i n
  assume "db st = Some d0 \<and>
    (if cache st then db_query sqlite d0 sql else db_prepare sqlite d0 sql) = Inr stmt"
    and "stmt_run sqlite stmt ps d0 = Inr d2 \<and> last_insert_rowid sqlite d2 = Inr i \<and>
                 changes sqlite d2 = Inr n"
  then show "run sqlite Exec sql ps st =
           (Inr \<lparr>rows = [], insertId = Some i, numAffectedRows = Some n\<rparr>, st\<lparr>db := Some d2\<rparr>)"
    by (simp add: run_def)
qed

text \<open>The theorem at a select submitted on a fresh driver, and at a \<open>SELECT\<close> in
  mode \<open>query\<close> and an \<open>INSERT\<close> in mode \<open>exec\<close> on the example engine.\<close>

theorem query_dispatch_witness:
  "posted (workers (snd (executeQuery \<lparr>conn_worker = 0, conn_mitt = Some 0\<rparr> selectQuery
                      (snd (init (newDriver ''db'' ''url'' :: sql_value driver))))) ! 0) =
     [PostInit ''db'' ''url'', PostRun Query ''select * from test'' []] \<and>
   run toy_sqlite Query ''SELECT'' []
       \<lparr>db = Some \<lparr>toy_rows = [VInt 7], toy_changes = 1\<rparr>, cache = False\<rparr> =
     (Inr \<lparr>rows = [VInt 7], insertId = None, numAffectedRows = None\<rparr>,
      \<lparr>db = Some \<lparr>toy_rows = [VInt 7], toy_changes = 1\<rparr>, cache = False\<rparr>) \<and>
   run toy_sqlite Exec ''INSERT'' [VInt 7] toyOpen =
     (Inr \<lparr>rows = [], insertId = Some 1, numAffectedRows = Some 1\<rparr>,
      toyOpen\<lparr>db := Some \<lparr>toy_rows = [VInt 7], toy_changes = 1\<rparr>\<rparr>)"
proof -
  let ?d = "snd (init (newDriver ''db'' ''url'' :: sql_value driver))"
  let ?c = "\<lparr>conn_worker = 0, conn_mitt = Some 0\<rparr>"
  let ?st = "\<lparr>db = Some \<lparr>toy_rows = [VInt 7], toy_changes = 1\<rparr>, cache = False\<rparr>"
  have w: "conn_worker ?c < length (workers ?d)"
    by (simp add: init_def newDriver_def Let_def postMessage_def newPromise_def once_def)
  have p: "posted (workers ?d ! 0) = [PostInit ''db'' ''url'']"
    by (simp add: init_def newDriver_def Let_def postMessage_def newPromise_def once_def)
  have a: "db ?st = Some \<lparr>toy_rows = [VInt 7], toy_changes = 1\<rparr> \<and>
     (if cache ?st then db_query toy_sqlite \<lparr>toy_rows = [VInt 7], toy_changes = 1\<rparr> ''SELECT''
      else db_prepare toy_sqlite \<lparr>toy_rows = [VInt 7], toy_changes = 1\<rparr> ''SELECT'') =
       Inr ''SELECT''"
    by (simp add: toy_sqlite_def toy_compile_def)
  have a2: "stmt_all toy_sqlite ''SELECT'' [] \<lparr>toy_rows = [VInt 7], toy_changes = 1\<rparr> =
      Inr ([VInt 7], \<lparr>toy_rows = [VInt 7], toy_changes = 1\<rparr>)"
    by (simp add: toy_sqlite_def toy_step_def)
  have b: "db toyOpen = Some \<lparr>toy_rows = [], toy_changes = 0\<rparr> \<and>
     (if cache toyOpen then db_query toy_sqlite \<lparr>toy_rows = [], toy_changes = 0\<rparr> ''INSERT''
      else db_prepare toy_sqlite \<lparr>toy_rows = [], toy_changes = 0\<rparr> ''INSERT'') = Inr ''INSERT''"
    by (simp add: toyOpen_def toy_sqlite_def toy_compile_def)
  have b2: "stmt_run toy_sqlite ''INSERT'' [VInt 7] \<lparr>toy_rows = [], toy_changes = 0\<rparr> =
              Inr \<lparr>toy_rows = [VInt 7], toy_changes = 1\<rparr> \<and>
            last_insert_rowid toy_sqlite \<lparr>toy_rows = [VInt 7], toy_changes = 1\<rparr> = Inr 1 \<and>
            changes toy_sqlite \<lparr>toy_rows = [VInt 7], toy_changes = 1\<rparr> = Inr 1"
    by (simp add: toy_sqlite_def toy_step_def)
  from query_dispatch [of ?c ?d selectQuery toyOpen "\<lparr>toy_rows = [], toy_changes = 0\<rparr>"
         toy_sqlite "''INSERT''" "''INSERT''" "[VInt 7]"] w p
  have 1: "posted (workers (snd (executeQuery ?c selectQuery ?d)) ! 0) =
     [PostInit ''db'' ''url'', PostRun Query ''select * from test'' []]"
    by (simp add: selectQuery_def)
  from query_dispatch [of ?c ?d selectQuery ?st "\<lparr>toy_rows = [VInt 7], toy_changes = 1\<rparr>"
         toy_sqlite "''SELECT''" "''SELECT''" "[]"] a a2
  have 2: "run toy_sqlite Query ''SELECT'' [] ?st =
     (Inr \<lparr>rows = [VInt 7], insertId = None, numAffectedRows = None\<rparr>, ?st)"
    by simp
  from query_dispatch [of ?c ?d selectQuery toyOpen "\<lparr>toy_rows = [], toy_changes = 0\<rparr>"
         toy_sqlite "''INSERT''" "''INSERT''" "[VInt 7]"] b b2
  have 3: "run toy_sqlite Exec ''INSERT'' [VInt 7] toyOpen =
     (Inr \<lparr>rows = [], insertId = Some 1, numAffectedRows = Some 1\<rparr>,
      toyOpen\<lparr>db := Some \<lparr>toy_rows = [VInt 7], toy_changes = 1\<rparr>\<rparr>)"
    by simp
  from 1 2 3 show ?thesis by simp
qed

text \<open>
  C10. A \<open>run\<close> request of mode \<open>raw\<close> executes its statement twice: \<open>stmt.all\<close>
  on the database as it is, then \<open>stmt.run\<close> on the database \<open>stmt.all\<close> left;
  the insert id and the affected-row count are read after the second execution, and
  the response carries the rows of the first together with both numbers.
\<close>

theorem raw_runs_twice:
  assumes "db st = Some d0"
    and "(if cache st then db_query sqlite d0 sql else db_prepare sqlite d0 sql) = Inr stmt"
    and "stmt_all sqlite stmt ps d0 = Inr (rs, d1)"
    and "stmt_run sqlite stmt ps d1 = Inr d2"
    and "last_insert_rowid sqlite d2 = Inr i"
    and "changes sqlite d2 = Inr n"
  shows "onmessage sqlite (Run Raw sql ps) st =
           (st\<lparr>db := Some d2\<rparr>,
            [\<lparr>wtype = RunType,
              wdata = Some \<lparr>rows = rs, insertId = Some i, numAffectedRows = Some n\<rparr>,
              werr = None\<rparr>])"
  using assms by (simp add: onmessage_def run_def)

text \<open>The theorem at an \<open>INSERT\<close> sent as raw to the example engine: one request,
  two rows inserted.\<close>

theorem raw_runs_twice_witness:
  "stmt_all toy_sqlite ''INSERT'' [VInt 7] \<lparr>toy_rows = [], toy_changes = 0\<rparr> =
     Inr ([], \<lparr>toy_rows = [VInt 7], toy_changes = 1\<rparr>) \<and>
   stmt_run toy_sqlite ''INSERT'' [VInt 7] \<lparr>toy_rows = [VInt 7], toy_changes = 1\<rparr> =
     Inr \<lparr>toy_rows = [VInt 7, VInt 7], toy_changes = 1\<rparr> \<and>
   onmessage toy_sqlite (Run Raw ''INSERT'' [VInt 7]) toyOpen =
     (toyOpen\<lparr>db := Some \<lparr>toy_rows = [VInt 7, VInt 7], toy_changes = 1\<rparr>\<rparr>,
      [\<lparr>wtype = RunType,
        wdata = Some \<lparr>rows = [], insertId = Some 2, numAffectedRows = Some 1\<rparr>,
        werr = None\<rparr>])"
proof -
  have h1: "db toyOpen = Some \<lparr>toy_rows = [], toy_changes = 0\<rparr>" by (simp add: toyOpen_def)
  have h2: "(if cache toyOpen
             then db_query toy_sqlite \<lparr>toy_rows = [], toy_changes = 0\<rparr> ''INSERT''
             else db_prepare toy_sqlite \<lparr>toy_rows = [], toy_changes = 0\<rparr> ''INSERT'') =
            Inr ''INSERT''"
    by (simp add: toyOpen_def toy_sqlite_def toy_compile_def)
  have h3: "stmt_all toy_sqlite ''INSERT'' [VInt 7] \<lparr>toy_rows = [], toy_changes = 0\<rparr> =
     Inr ([], \<lparr>toy_rows = [VInt 7], toy_changes = 1\<rparr>)"
    by (simp add: toy_sqlite_def toy_step_def)
  have h4: "stmt_run toy_sqlite ''INSERT'' [VInt 7] \<lparr>toy_rows = [VInt 7], toy_changes = 1\<rparr> =
     Inr \<lparr>toy_rows = [VInt 7, VInt 7], toy_changes = 1\<rparr>"
    by (simp add: toy_sqlite_def toy_step_def)
  have h5: "last_insert_rowid toy_sqlite \<lparr>toy_rows = [VInt 7, VInt 7], toy_changes = 1\<rparr> = Inr 2"
    by (simp add: toy_sqlite_def)
  have h6: "changes toy_sqlite \<lparr>toy_rows = [VInt 7, VInt 7], toy_changes = 1\<rparr> = Inr 1"
    by (simp add: toy_sqlite_def)
  from raw_runs_twice [OF h1 h2 h3 h4 h5 h6] h3 h4 show ?thesis by simp
qed

subsection \<open>A query on a destroyed driver\<close>

lemma deliver_without_mitt: "mitt d = None \<Longrightarrow> deliver w t ev d = d"
  by (simp add: deliver_def)

lemma deliver_all_without_mitt: "mitt d = None \<Longrightarrow> deliver_all w ms d = d"
  by (induction ms arbitrary: d) (simp_all add: deliver_without_mitt)

lemma readyDriver_eval:
  "readyDriver =
     \<lparr>config_dbName = ''db'', config_url = ''url'', worker = Some 0, mitt = Some 0,
      connection = Some playgroundConnection,
      workers = [\<lparr>posted = [PostInit ''db'' ''url''], terminated = False\<rparr>],
      emitters = [[]], promises = [Resolved None]\<rparr>"
  by code_simp

lemma destroyedInFlight_eval:
  "destroyedInFlight =
     \<lparr>config_dbName = ''db'', config_url = ''url'', worker = Some 0, mitt = None,
      connection = Some playgroundConnection,
      workers = [\<lparr>posted = [PostInit ''db'' ''url'', PostClose,
                              PostRun Query ''select * from test'' []],
                  terminated = True\<rparr>],
      emitters = [[]], promises = [Resolved None, Resolved None, Pending]\<rparr>"
  by code_simp

lemma queryAfterDestroy_eval:
  "queryAfterDestroy =
     \<lparr>config_dbName = ''db'', config_url = ''url'', worker = Some 0, mitt = None,
      connection = Some playgroundConnection,
      workers = [\<lparr>posted = [PostInit ''db'' ''url'', PostClose,
                              PostRun Query ''select * from test'' []],
                  terminated = True\<rparr>],
      emitters = [[(RunType, OnRun 2)]], promises = [Resolved None, Resolved None, Pending]\<rparr>"
  by code_simp

text \<open>
  C8 fails on the code. In both sessions the select's promise is promise 2. When the
  close is acknowledged while the select is in flight, the acknowledgement clears the
  select's handler, and the promise is left pending: it is not rejected, and no later
  message of the worker settles it. When the select is submitted after the close was
  acknowledged, the connection's own \<open>mitt\<close> field is still set, so the guard that
  rejects with \<open>kysely instance has been destroyed\<close> does not fire, and the promise
  stays pending as well.
\<close>

theorem in_flight_query_never_settles:
  "connection readyDriver = Some playgroundConnection \<and>
   fst (executeQuery playgroundConnection selectQuery (snd (destroy readyDriver))) = 2 \<and>
   promises destroyedInFlight ! 2 = Pending \<and>
   (\<forall>ms. promises (deliver_all 0 ms destroyedInFlight) ! 2 = Pending) \<and>
   promises queryAfterDestroy ! 2 = Pending \<and>
   (\<forall>ms. promises (deliver_all 0 ms queryAfterDestroy) ! 2 = Pending)"
proof -
  have a: "connection readyDriver = Some playgroundConnection"
    by (simp add: readyDriver_eval)
  have b: "fst (executeQuery playgroundConnection selectQuery (snd (destroy readyDriver))) = 2"
    by code_simp
  have c: "mitt destroyedInFlight = None" "promises destroyedInFlight ! 2 = Pending"
    by (simp_all add: destroyedInFlight_eval)
  have d: "mitt queryAfterDestroy = None" "promises queryAfterDestroy ! 2 = Pending"
    by (simp_all add: queryAfterDestroy_eval)
  from a b c d show ?thesis by (simp add: deliver_all_without_mitt)
qed

subsection \<open>The connection mutex\<close>

lemma lock_attempt_inv: "mutex_inv m \<Longrightarrow> mutex_inv (lock_attempt t m)"
  by (auto simp: mutex_inv_def lock_attempt_def split: option.splits)

lemma mutex_step_inv: "mutex_inv m \<Longrightarrow> mutex_step e m = Some m' \<Longrightarrow> mutex_inv m'"
proof (cases e)
  case (Acquire t)
  assume "mutex_inv m" "mutex_step e m = Some m'"
  with Acquire show ?thesis by (auto intro: lock_attempt_inv)
next
  case (Release t)
  assume inv: "mutex_inv m" and step: "mutex_step e m = Some m'"
  with Release have t: "t \<in> set (mx_holders m)"
    and m': "m' = (unlock m)\<lparr>mx_holders := remove1 t (mx_holders m)\<rparr>"
    by (auto split: if_splits)
  from inv t have "mx_holders m = [t]"
    by (cases "mx_holders m") (auto simp: mutex_inv_def)
  with inv m' show ?thesis
    by (auto simp: mutex_inv_def unlock_def split: option.splits)
next
  case Tick
  assume inv: "mutex_inv m" and step: "mutex_step e m = Some m'"
  with Tick obtain t ts where "mx_microtasks m = t # ts"
    and m': "m' = lock_attempt t (m\<lparr>mx_microtasks := ts\<rparr>)"
    by (auto split: list.splits)
  from inv have "mutex_inv (m\<lparr>mx_microtasks := ts\<rparr>)" by (simp add: mutex_inv_def)
  with m' show ?thesis by (simp add: lock_attempt_inv)
qed

lemma mutex_run_inv: "mutex_inv m \<Longrightarrow> mutex_run es m = Some m' \<Longrightarrow> mutex_inv m'"
  by (induction es arbitrary: m) (auto split: option.splits dest: mutex_step_inv)

lemma release_queues_all:
  assumes "mutex_inv m" and "mutex_step (Release t) m = Some m'"
  shows "mx_promise m' = None \<and> mx_holders m' = [] \<and> mx_suspended m' = [] \<and>
         mx_microtasks m' = mx_microtasks m @ map snd (mx_suspended m)"
proof -
  from assms(2) have t: "t \<in> set (mx_holders m)"
    and m': "m' = (unlock m)\<lparr>mx_holders := remove1 t (mx_holders m)\<rparr>"
    by (auto split: if_splits)
  from assms(1) t have h: "mx_holders m = [t]"
    by (cases "mx_holders m") (auto simp: mutex_inv_def)
  with assms(1) obtain p where p: "mx_promise m = Some p" by (auto simp: mutex_inv_def)
  with assms(1) have all: "\<forall>pt \<in> set (mx_suspended m). fst pt = p" by (auto simp: mutex_inv_def)
  then have "filter (\<lambda>pt. fst pt = p) (mx_suspended m) = mx_suspended m"
    "filter (\<lambda>pt. fst pt \<noteq> p) (mx_suspended m) = []"
    by (simp_all add: filter_empty_conv filter_id_conv)
  with m' p h show ?thesis by (simp add: unlock_def)
qed

text \<open>
  C5 (as amended). After any sequence of acquire calls, release calls by the holder and
  microtask turns, at most one task holds the connection. While one holds it, an
  acquire call suspends on the promise that is set and is not granted, and a resumed
  task that takes its turn is not granted either: nothing is granted before a release.
  A release leaves no holder and queues all suspended tasks for resumption, in the
  order in which they suspended, behind the microtasks already queued.
\<close>

theorem mutual_exclusion:
  assumes "mutex_run es newMutex = Some m"
  shows "length (mx_holders m) \<le> 1 \<and>
         (mx_holders m \<noteq> [] \<longrightarrow>
            (\<forall>t. \<exists>m' p. mutex_step (Acquire t) m = Some m' \<and> mx_promise m = Some p \<and>
                   mx_granted m' = mx_granted m \<and> mx_holders m' = mx_holders m \<and>
                   mx_suspended m' = mx_suspended m @ [(p, t)]) \<and>
            (\<forall>m'. mutex_step Tick m = Some m' \<longrightarrow>
                   mx_granted m' = mx_granted m \<and> mx_holders m' = mx_holders m)) \<and>
         (\<forall>t m'. mutex_step (Release t) m = Some m' \<longrightarrow>
            mx_holders m' = [] \<and> mx_suspended m' = [] \<and>
            mx_microtasks m' = mx_microtasks m @ map snd (mx_suspended m))"
proof -
  have "mutex_inv newMutex" by (simp add: mutex_inv_def newMutex_def)
  from mutex_run_inv [OF this assms] have inv: "mutex_inv m" .
  then have 1: "length (mx_holders m) \<le> 1" by (simp add: mutex_inv_def)
  have 2: "mx_holders m \<noteq> [] \<longrightarrow>
            (\<forall>t. \<exists>m' p. mutex_step (Acquire t) m = Some m' \<and> mx_promise m = Some p \<and>
                   mx_granted m' = mx_granted m \<and> mx_holders m' = mx_holders m \<and>
                   mx_suspended m' = mx_suspended m @ [(p, t)]) \<and>
            (\<forall>m'. mutex_step Tick m = Some m' \<longrightarrow>
                   mx_granted m' = mx_granted m \<and> mx_holders m' = mx_holders m)"
  proof
    assume "mx_holders m \<noteq> []"
    with inv obtain p where p: "mx_promise m = Some p" by (auto simp: mutex_inv_def)
    have acq: "\<forall>t. \<exists>m' p. mutex_step (Acquire t) m = Some m' \<and> mx_promise m = Some p \<and>
                   mx_granted m' = mx_granted m \<and> mx_holders m' = mx_holders m \<and>
                   mx_suspended m' = mx_suspended m @ [(p, t)]"
    proof
      fix t
      have "mutex_step (Acquire t) m = Some (m\<lparr>mx_suspended := mx_suspended m @ [(p, t)]\<rparr>)"
        using p by (simp add: lock_attempt_def)
      with p show "\<exists>m' p. mutex_step (Acquire t) m = Some m' \<and> mx_promise m = Some p \<and>
                   mx_granted m' = mx_granted m \<and> mx_holders m' = mx_holders m \<and>
                   mx_suspended m' = mx_suspended m @ [(p, t)]"
        by simp
    qed
    have tick: "\<forall>m'. mutex_step Tick m = Some m' \<longrightarrow>
                   mx_granted m' = mx_granted m \<and> mx_holders m' = mx_holders m"
      using p by (auto simp: lock_attempt_def split: list.splits)
    from acq tick
    show "(\<forall>t. \<exists>m' p. mutex_step (Acquire t) m = Some m' \<and> mx_promise m = Some p \<and>
                   mx_granted m' = mx_granted m \<and> mx_holders m' = mx_holders m \<and>
                   mx_suspended m' = mx_suspended m @ [(p, t)]) \<and>
            (\<forall>m'. mutex_step Tick m = Some m' \<longrightarrow>
                   mx_granted m' = mx_granted m \<and> mx_holders m' = mx_holders m)"
      by (rule conjI)
  qed
  have 3: "\<forall>t m'. mutex_step (Release t) m = Some m' \<longrightarrow>
            mx_holders m' = [] \<and> mx_suspended m' = [] \<and>
            mx_microtasks m' = mx_microtasks m @ map snd (mx_suspended m)"
    using release_queues_all [OF inv] by blast
  from 1 2 3 show ?thesis by blast
qed

text \<open>The theorem after task 0 has acquired and task 1 has asked: task 2 suspends
  behind task 1, and the release by task 0 queues task 1.\<close>

text \<open>The theorem after task 0 has acquired and task 1 has asked: task 2 suspends
  behind task 1, and the release by task 0 queues task 1.\<close>

theorem mutual_exclusion_witness:
  "mutex_run [Acquire 0, Acquire 1] newMutex = Some heldMutex \<and>
   mx_holders heldMutex = [0] \<and>
   (\<exists>m'. mutex_step (Acquire 2) heldMutex = Some m' \<and> mx_granted m' = [0] \<and>
          mx_holders m' = [0] \<and> mx_suspended m' = [(0, 1), (0, 2)]) \<and>
   (\<exists>m'. mutex_step (Release 0) heldMutex = Some m' \<and> mx_holders m' = [] \<and>
          mx_microtasks m' = [1])"
proof -
  have r: "mutex_run [Acquire 0, Acquire 1] newMutex = Some heldMutex"
    by code_simp
  have h: "mx_holders heldMutex = [0]" "mx_granted heldMutex = [0]"
    "mx_suspended heldMutex = [(0, 1)]" "mx_promise heldMutex = Some 0"
    "mx_microtasks heldMutex = []"
    by (simp_all add: heldMutex_def)
  have ne: "mx_holders heldMutex \<noteq> []" by (simp add: h)
  note me = mutual_exclusion [OF r]
  from me ne have
    "\<forall>t. \<exists>m' p. mutex_step (Acquire t) heldMutex = Some m' \<and> mx_promise heldMutex = Some p \<and>
            mx_granted m' = mx_granted heldMutex \<and> mx_holders m' = mx_holders heldMutex \<and>
            mx_suspended m' = mx_suspended heldMutex @ [(p, t)]"
    by blast
  then obtain m' p where a:
    "mutex_step (Acquire 2) heldMutex = Some m'" "mx_promise heldMutex = Some p"
    "mx_granted m' = mx_granted heldMutex" "mx_holders m' = mx_holders heldMutex"
    "mx_suspended m' = mx_suspended heldMutex @ [(p, 2)]"
    by blast
  from a(2) h(4) have "p = 0" by simp
  with a h have acq: "\<exists>m'. mutex_step (Acquire 2) heldMutex = Some m' \<and> mx_granted m' = [0] \<and>
          mx_holders m' = [0] \<and> mx_suspended m' = [(0, 1), (0, 2)]"
    by simp
  obtain m2 where rel: "mutex_step (Release 0) heldMutex = Some m2"
    by (simp add: heldMutex_def)
  from me have
    "\<forall>t m'. mutex_step (Release t) heldMutex = Some m' \<longrightarrow>
        mx_holders m' = [] \<and> mx_suspended m' = [] \<and>
        mx_microtasks m' = mx_microtasks heldMutex @ map snd (mx_suspended heldMutex)"
    by blast
  with rel have "mx_holders m2 = []"
    "mx_microtasks m2 = mx_microtasks heldMutex @ map snd (mx_suspended heldMutex)"
    by blast+
  with rel h have release:
    "\<exists>m'. mutex_step (Release 0) heldMutex = Some m' \<and> mx_holders m' = [] \<and>
          mx_microtasks m' = [1]"
    by simp
  from r h(1) acq release show ?thesis by (intro conjI)
qed

text \<open>
  C5 as stated fails: grants are not in arrival order. Task 0 holds and task 1 waits.
  Task 0 releases, which queues task 1; before task 1 takes its turn, task 2 calls
  \<open>acquireConnection\<close> and is granted at once, and task 3 calls it and suspends.
  Task 1 then takes its turn and suspends again, now behind task 3. When task 2
  releases, task 3 is granted while task 1, which asked before tasks 2 and 3, still
  waits.
\<close>

theorem fifo_counterexample:
  "mutex_run [Acquire 0, Acquire 1, Release 0, Acquire 2, Acquire 3] newMutex =
     Some \<lparr>mx_promise = Some 1, mx_fresh = 2, mx_suspended = [(1, 3)], mx_microtasks = [1],
           mx_granted = [0, 2], mx_holders = [2]\<rparr> \<and>
   mutex_run [Acquire 0, Acquire 1, Release 0, Acquire 2, Acquire 3, Tick, Release 2, Tick, Tick]
       newMutex =
     Some \<lparr>mx_promise = Some 2, mx_fresh = 3, mx_suspended = [(2, 1)], mx_microtasks = [],
           mx_granted = [0, 2, 3], mx_holders = [3]\<rparr>"
  by code_simp

subsection \<open>\<open>defineTable\<close> writes into the caller's object\<close>














end
